theory Spec2Isabelle
  imports Complex_Main
begin

section \<open>Python values, exceptions and sequencing\<close>

text \<open>
  The search engine of \<^verbatim>\<open>backend/app.py\<close> is embedded as HOL functions. A Python
  exception is a value of \<open>py_error\<close>; a computation that may raise has the type
  \<open>py_error + 'a\<close>, with \<open>Inl\<close> for the exception. Floating-point numbers are
  modelled as real numbers: rounding error, infinities and NaN are outside the model.
\<close>

datatype py_error =
  ValueError | IndexError | KeyError | TypeError | AttributeError | UnboundLocalError

text \<open>
  The document payloads and CSV cells are JSON-like values: strings, integers, and
  dictionaries with string keys (association lists, the first binding of a key counts).
\<close>

datatype pyval = PStr string | PInt int | PDict "(string \<times> pyval) list"

definition ebind :: "'e + 'a \<Rightarrow> ('a \<Rightarrow> 'e + 'b) \<Rightarrow> 'e + 'b" where
  "ebind m f = (case m of Inl e \<Rightarrow> Inl e | Inr x \<Rightarrow> f x)"

text \<open>A list comprehension whose element expression may raise.\<close>

fun mapM_err :: "('a \<Rightarrow> 'e + 'b) \<Rightarrow> 'a list \<Rightarrow> 'e + 'b list" where
  "mapM_err f [] = Inr []"
| "mapM_err f (x # xs) = ebind (f x) (\<lambda>y. ebind (mapM_err f xs) (\<lambda>ys. Inr (y # ys)))"

text \<open>A \<^verbatim>\<open>for\<close> loop over a list that threads the loop's variables and stops at the
  first exception.\<close>

fun for_each :: "('a \<Rightarrow> 'st \<Rightarrow> 'e + 'st) \<Rightarrow> 'a list \<Rightarrow> 'st \<Rightarrow> 'e + 'st" where
  "for_each body [] st = Inr st"
| "for_each body (x # xs) st = ebind (body x st) (\<lambda>st'. for_each body xs st')"

text \<open>\<^verbatim>\<open>xs[i]\<close> for an index that is not negative, and the slice \<^verbatim>\<open>xs[:k]\<close>, where
  a negative \<open>k\<close> counts from the end.\<close>

definition py_nth :: "'a list \<Rightarrow> nat \<Rightarrow> py_error + 'a" where
  "py_nth xs i = (if i < length xs then Inr (xs ! i) else Inl IndexError)"

definition py_take :: "int \<Rightarrow> 'a list \<Rightarrow> 'a list" where
  "py_take k xs = (if 0 \<le> k then take (nat k) xs else take (length xs - nat (- k)) xs)"

fun py_len :: "pyval \<Rightarrow> py_error + nat" where
  "py_len (PStr t) = Inr (length t)"
| "py_len (PInt n) = Inl TypeError"
| "py_len (PDict d) = Inr (length (remdups (map fst d)))"

text \<open>\<^verbatim>\<open>data[key]\<close> and \<^verbatim>\<open>data.get(key, default)\<close> for a string key.\<close>

fun py_getitem :: "pyval \<Rightarrow> string \<Rightarrow> py_error + pyval" where
  "py_getitem (PDict d) key = (case map_of d key of None \<Rightarrow> Inl KeyError | Some v \<Rightarrow> Inr v)"
| "py_getitem (PStr t) key = Inl TypeError"
| "py_getitem (PInt n) key = Inl TypeError"

fun py_get :: "pyval \<Rightarrow> string \<Rightarrow> pyval \<Rightarrow> py_error + pyval" where
  "py_get (PDict d) key dflt = (case map_of d key of None \<Rightarrow> Inr dflt | Some v \<Rightarrow> Inr v)"
| "py_get (PStr t) key dflt = Inl AttributeError"
| "py_get (PInt n) key dflt = Inl AttributeError"

fun str_of_nat :: "nat \<Rightarrow> string" where
  "str_of_nat n =
     (if n < 10 then [char_of (48 + n)] else str_of_nat (n div 10) @ [char_of (48 + n mod 10)])"

declare str_of_nat.simps [simp del]

definition str_of_int :: "int \<Rightarrow> string" where
  "str_of_int i = (if i < 0 then CHR ''-'' # str_of_nat (nat (- i)) else str_of_nat (nat i))"

text \<open>\<^verbatim>\<open>text[:150] + "..." if len(text) > 150 else text\<close>: the length is taken first, so
  an integer raises \<^verbatim>\<open>TypeError\<close> and a dictionary of at most 150 keys is passed on as
  it is; a longer dictionary cannot be sliced.\<close>

definition snippet :: "pyval \<Rightarrow> py_error + pyval" where
  "snippet text =
     ebind (py_len text) (\<lambda>n.
       if n > 150 then
         (case text of PStr t \<Rightarrow> Inr (PStr (take 150 t @ ''...'')) | _ \<Rightarrow> Inl TypeError)
       else Inr text)"

section \<open>Dense arrays\<close>

text \<open>
  A one-dimensional array is a list, a two-dimensional array the list of its rows (an
  array without rows does not record how many columns it has). The products the engine
  takes have the forms \<^verbatim>\<open>a @ b.T\<close> and \<^verbatim>\<open>a @ np.diag(d)\<close>; both raise \<^verbatim>\<open>ValueError\<close>
  when the inner dimensions differ.
\<close>

type_synonym vec = "real list"
type_synonym mat = "real list list"

definition dot :: "vec \<Rightarrow> vec \<Rightarrow> real" where
  "dot xs ys = sum_list (map2 (*) xs ys)"

definition matmul_T :: "mat \<Rightarrow> mat \<Rightarrow> py_error + mat" where
  "matmul_T a b =
     (if list_all (\<lambda>r. list_all (\<lambda>c. length r = length c) b) a
      then Inr (map (\<lambda>r. map (dot r) b) a) else Inl ValueError)"

definition matmul_diag :: "mat \<Rightarrow> vec \<Rightarrow> py_error + mat" where
  "matmul_diag a d =
     (if list_all (\<lambda>r. length r = length d) a
      then Inr (map (\<lambda>r. map2 (*) r d) a) else Inl ValueError)"

text \<open>Elementwise product of two one-dimensional arrays, with numpy's broadcasting of
  an array of length one.\<close>

definition np_mul :: "vec \<Rightarrow> vec \<Rightarrow> py_error + vec" where
  "np_mul a b =
     (if length a = length b then Inr (map2 (*) a b)
      else if length a = 1 then Inr (map (\<lambda>y. hd a * y) b)
      else if length b = 1 then Inr (map (\<lambda>x. x * hd b) a)
      else Inl ValueError)"

text \<open>
  \<^verbatim>\<open>sklearn.preprocessing.normalize\<close> (L2, by rows). Its input check refuses an array
  without rows or without columns. Each row is divided by its Euclidean norm, and a norm
  below ten machine epsilons is replaced by 1 first, so a zero row stays a zero row.
\<close>

definition machine_eps :: real where
  "machine_eps = 1 / 2 ^ 52"

definition row_norm :: "vec \<Rightarrow> real" where
  "row_norm v = sqrt (sum_list (map (\<lambda>x. x * x) v))"

definition handle_zeros_in_scale :: "real \<Rightarrow> real" where
  "handle_zeros_in_scale n = (if n < 10 * machine_eps then 1 else n)"

definition normalize_rows :: "mat \<Rightarrow> py_error + mat" where
  "normalize_rows X =
     (if X = [] \<or> list_ex (\<lambda>r. r = []) X then Inl ValueError
      else Inr (map (\<lambda>r. map (\<lambda>x. x / handle_zeros_in_scale (row_norm r)) r) X))"

text \<open>
  \<^verbatim>\<open>np.argsort\<close> is called with its default algorithm, which is not a stable sort. Its
  contract is all the engine can rely on: the result is a permutation of the positions
  that lists the values in non-decreasing order. The engine is a function of the
  \<open>argsort\<close> it is run with; \<open>stable_argsort\<close> is one that meets the contract.
\<close>

definition is_argsort :: "vec \<Rightarrow> nat list \<Rightarrow> bool" where
  "is_argsort xs p \<longleftrightarrow>
     distinct p \<and> set p = {0..<length xs} \<and> sorted (map (\<lambda>i. xs ! i) p)"

definition argsort_ok :: "(vec \<Rightarrow> nat list) \<Rightarrow> bool" where
  "argsort_ok argsort \<longleftrightarrow> (\<forall>xs. is_argsort xs (argsort xs))"

definition stable_argsort :: "vec \<Rightarrow> nat list" where
  "stable_argsort xs = sort_key (\<lambda>i. xs ! i) [0..<length xs]"

text \<open>Another function that meets the contract: among equal values the last position
  comes first.\<close>

definition last_first_argsort :: "vec \<Rightarrow> nat list" where
  "last_first_argsort xs = rev (sort_key (\<lambda>i. - xs ! i) [0..<length xs])"

text \<open>Python's \<^verbatim>\<open>round(x, 2)\<close>: to the nearest multiple of 1/100, a tie to the even
  one. Here the argument is an exact real; the code rounds the double that the
  floating-point product \<^verbatim>\<open>similarity_score * 100\<close> yields, which near a tie can fall
  on the other side of it. The statements below use of the reported score only that
  rounding is monotone and that 0 is rounded to 0, which holds of the doubles too.\<close>

definition round_half_even :: "real \<Rightarrow> int" where
  "round_half_even x =
     (let f = \<lfloor>x\<rfloor>; d = x - of_int f
      in if d < 1 / 2 then f else if 1 / 2 < d then f + 1 else if even f then f else f + 1)"

definition py_round2 :: "real \<Rightarrow> real" where
  "py_round2 x = of_int (round_half_even (x * 100)) / 100"

section \<open>The search engine\<close>

text \<open>
  The attributes of \<^verbatim>\<open>OptimizedTFIDFSVDSearch\<close> that \<^verbatim>\<open>load_model\<close> fills. The fitted
  vectorizer is a function from a text to its TF-IDF row; \<open>doc_lookup\<close> maps a document
  ordinal to (source, streamer, index in the source, payload).
\<close>

record engine =
  vectorizer :: "string \<Rightarrow> vec"
  word_to_index :: "string \<rightharpoonup> nat"
  index_to_word :: "nat \<rightharpoonup> string"
  u :: mat
  s :: vec
  vt :: mat
  docs_compressed :: mat
  doc_lookup :: "nat \<rightharpoonup> (string \<times> string \<times> int \<times> pyval)"
  dimension_labels :: "string list"

text \<open>An entry of \<^verbatim>\<open>top_dimensions\<close> (keys index, label, contribution) and a result
  record (keys source, name, doc, sim_score, reddit_score, id, top_dimensions; the two
  Reddit keys are present for a Reddit post only).\<close>

record top_dimension =
  dim_index :: nat
  dim_label :: string
  contribution :: real

record result =
  source :: string
  name :: string
  doc :: pyval
  sim_score :: real
  reddit_score :: "pyval option"
  reddit_id :: "pyval option"
  top_dimensions :: "top_dimension list"

text \<open>Lines 126 to 141 of \<^verbatim>\<open>query\<close>: the three dimensions that contribute most.\<close>

definition top_dims ::
  "(vec \<Rightarrow> nat list) \<Rightarrow> engine \<Rightarrow> mat \<Rightarrow> nat \<Rightarrow> py_error + top_dimension list" where
  "top_dims argsort eng query_vec_norm doc_idx =
     ebind (py_nth (u eng) doc_idx) (\<lambda>doc_factors.
     ebind (py_nth query_vec_norm 0) (\<lambda>query_factors.
     ebind (np_mul doc_factors query_factors) (\<lambda>dimension_contributions.
       let top_dim_indices = py_take 3 (argsort (map uminus dimension_contributions))
       in mapM_err (\<lambda>dim_idx.
            ebind (py_nth (dimension_labels eng) dim_idx) (\<lambda>lab.
            ebind (py_nth dimension_contributions dim_idx) (\<lambda>c.
              Inr \<lparr>dim_index = dim_idx, dim_label = lab, contribution = c\<rparr>)))
            top_dim_indices)))"

text \<open>Lines 144 to 183: the record of a document by its source tag. No branch is taken
  for another tag, and the result is \<open>None\<close>: the variable \<^verbatim>\<open>result\<close> is not assigned.\<close>

definition shape_result ::
  "string \<Rightarrow> string \<Rightarrow> pyval \<Rightarrow> real \<Rightarrow> top_dimension list \<Rightarrow> py_error + result option" where
  "shape_result src streamer data similarity_score tds =
     (if src = ''reddit'' then
        ebind (py_getitem data ''Title'') (\<lambda>text.
        ebind (py_getitem data ''Score'') (\<lambda>score.
        ebind (py_getitem data ''ID'') (\<lambda>rid.
        ebind (snippet text) (\<lambda>d.
          Inr (Some \<lparr>source = src, name = streamer, doc = d,
            sim_score = py_round2 (similarity_score * 100),
            reddit_score = Some score, reddit_id = Some rid, top_dimensions = tds\<rparr>)))))
      else if src = ''twitter'' then
        ebind (snippet data) (\<lambda>d.
          Inr (Some \<lparr>source = src, name = streamer, doc = d,
            sim_score = py_round2 (similarity_score * 100),
            reddit_score = None, reddit_id = None, top_dimensions = tds\<rparr>))
      else if src = ''wiki'' then
        ebind (case data of
                 PDict d \<Rightarrow> py_getitem data ''wikipedia_summary''
               | PStr t \<Rightarrow> Inr (PStr t)
               | PInt n \<Rightarrow> Inr (PStr (str_of_int n))) (\<lambda>text.
        ebind (snippet text) (\<lambda>d.
          Inr (Some \<lparr>source = src, name = streamer, doc = d,
            sim_score = py_round2 (similarity_score * 100),
            reddit_score = None, reddit_id = None, top_dimensions = tds\<rparr>)))
      else if src = ''details'' then
        ebind (py_get data ''Description'' (PStr '''')) (\<lambda>text.
        ebind (snippet text) (\<lambda>d.
          Inr (Some \<lparr>source = src, name = streamer, doc = d,
            sim_score = py_round2 (similarity_score * 100),
            reddit_score = None, reddit_id = None, top_dimensions = tds\<rparr>)))
      else Inr None)"

text \<open>
  The body of the loop over \<^verbatim>\<open>top_indices\<close> (lines 122 to 185). The loop's variables
  are the list \<^verbatim>\<open>results\<close> and the variable \<^verbatim>\<open>result\<close>, unbound (\<open>None\<close>) before the
  first assignment. \<^verbatim>\<open>results.append(result)\<close> runs in every iteration: it reads
  whatever \<^verbatim>\<open>result\<close> holds, and raises \<^verbatim>\<open>UnboundLocalError\<close> when it holds nothing.
\<close>

definition query_body ::
  "(vec \<Rightarrow> nat list) \<Rightarrow> engine \<Rightarrow> mat \<Rightarrow> mat \<Rightarrow> nat \<Rightarrow>
     result list \<times> result option \<Rightarrow> py_error + (result list \<times> result option)" where
  "query_body argsort eng similarities query_vec_norm doc_idx st =
     (case doc_lookup eng doc_idx of
        None \<Rightarrow> Inl KeyError
      | Some (src, streamer, idx, data) \<Rightarrow>
          ebind (ebind (py_nth similarities doc_idx) (\<lambda>row. py_nth row 0)) (\<lambda>similarity_score.
          ebind (top_dims argsort eng query_vec_norm doc_idx) (\<lambda>tds.
          ebind (shape_result src streamer data similarity_score tds) (\<lambda>assigned.
            (case (case assigned of Some r \<Rightarrow> Some r | None \<Rightarrow> snd st) of
               None \<Rightarrow> Inl UnboundLocalError
             | Some r \<Rightarrow> Inr (fst st @ [r], Some r))))))"

text \<open>Lines 97 to 116: the ordinals of the documents to report, best first.\<close>

definition project_query :: "engine \<Rightarrow> string \<Rightarrow> py_error + mat" where
  "project_query eng query_text =
     (let query_tfidf = [vectorizer eng query_text]
      in ebind (matmul_T query_tfidf (vt eng)) (\<lambda>query_vec.
         ebind (matmul_diag query_vec (s eng)) (\<lambda>weighted_query_vec.
           normalize_rows weighted_query_vec)))"

text \<open>Line 116: \<^verbatim>\<open>np.argsort(-similarities.flatten())[:top_k]\<close>.\<close>

definition top_indices :: "(vec \<Rightarrow> nat list) \<Rightarrow> mat \<Rightarrow> int \<Rightarrow> nat list" where
  "top_indices argsort similarities top_k =
     py_take top_k (argsort (map uminus (concat similarities)))"

definition query ::
  "(vec \<Rightarrow> nat list) \<Rightarrow> engine \<Rightarrow> string \<Rightarrow> int \<Rightarrow> py_error + result list" where
  "query argsort eng query_text top_k =
     ebind (project_query eng query_text) (\<lambda>query_vec_norm.
     ebind (matmul_T (docs_compressed eng) query_vec_norm) (\<lambda>similarities.
     ebind (for_each (query_body argsort eng similarities query_vec_norm)
              (top_indices argsort similarities top_k) ([], None))
       (\<lambda>st. Inr (fst st))))"

text \<open>
  What the artifacts must satisfy for a query to run through: the shapes of the arrays
  agree (\<open>k\<close> components, at least one; \<open>n_docs\<close> documents; as many terms as the
  vectorizer produces), and every document ordinal has an entry whose source tag is one of the four
  the engine handles and whose payload has the fields that tag's branch reads, the text
  among them a string.
\<close>

definition n_docs :: "engine \<Rightarrow> nat" where
  "n_docs eng = length (docs_compressed eng)"

fun is_str :: "pyval \<Rightarrow> bool" where
  "is_str (PStr t) = True"
| "is_str (PInt n) = False"
| "is_str (PDict d) = False"

definition recognised :: "string \<Rightarrow> bool" where
  "recognised src \<longleftrightarrow>
     src = ''reddit'' \<or> src = ''twitter'' \<or> src = ''wiki'' \<or> src = ''details''"

definition payload_ok :: "string \<Rightarrow> pyval \<Rightarrow> bool" where
  "payload_ok src data =
     (if src = ''reddit'' then
        (case data of
           PDict d \<Rightarrow>
             (case map_of d ''Title'' of Some v \<Rightarrow> is_str v | None \<Rightarrow> False) \<and>
             map_of d ''Score'' \<noteq> None \<and> map_of d ''ID'' \<noteq> None
         | _ \<Rightarrow> False)
      else if src = ''twitter'' then is_str data
      else if src = ''wiki'' then
        (case data of
           PDict d \<Rightarrow> (case map_of d ''wikipedia_summary'' of Some v \<Rightarrow> is_str v | None \<Rightarrow> False)
         | _ \<Rightarrow> True)
      else if src = ''details'' then
        (case data of
           PDict d \<Rightarrow> (case map_of d ''Description'' of Some v \<Rightarrow> is_str v | None \<Rightarrow> True)
         | _ \<Rightarrow> False)
      else False)"

definition well_formed :: "engine \<Rightarrow> string \<Rightarrow> bool" where
  "well_formed eng query_text \<longleftrightarrow>
     list_all (\<lambda>r. length r = length (vectorizer eng query_text)) (vt eng) \<and>
     length (vt eng) = length (s eng) \<and> s eng \<noteq> [] \<and>
     list_all (\<lambda>r. length r = length (s eng)) (docs_compressed eng) \<and>
     length (u eng) = length (docs_compressed eng) \<and>
     list_all (\<lambda>r. length r = length (s eng)) (u eng) \<and>
     length (dimension_labels eng) = length (s eng) \<and>
     list_all (\<lambda>d. case doc_lookup eng d of
                       None \<Rightarrow> False
                     | Some (src, streamer, idx, data) \<Rightarrow> payload_ok src data)
       [0..<length (docs_compressed eng)]"

text \<open>
  Two views of a run that the statements below use: the ordinals the loop visits (the
  value of \<^verbatim>\<open>top_indices\<close>), and the record the loop body builds for one ordinal when
  a branch assigns \<^verbatim>\<open>result\<close> (the body run with \<^verbatim>\<open>result\<close> unbound returns only then).
\<close>

definition ranking ::
  "(vec \<Rightarrow> nat list) \<Rightarrow> engine \<Rightarrow> string \<Rightarrow> int \<Rightarrow> py_error + nat list" where
  "ranking argsort eng query_text top_k =
     ebind (project_query eng query_text) (\<lambda>query_vec_norm.
     ebind (matmul_T (docs_compressed eng) query_vec_norm) (\<lambda>similarities.
       Inr (top_indices argsort similarities top_k)))"

definition record_of ::
  "(vec \<Rightarrow> nat list) \<Rightarrow> engine \<Rightarrow> string \<Rightarrow> nat \<Rightarrow> result \<Rightarrow> bool" where
  "record_of argsort eng query_text doc_idx r =
     (case project_query eng query_text of
        Inl e \<Rightarrow> False
      | Inr query_vec_norm \<Rightarrow>
          (case matmul_T (docs_compressed eng) query_vec_norm of
             Inl e \<Rightarrow> False
           | Inr similarities \<Rightarrow>
               query_body argsort eng similarities query_vec_norm doc_idx ([], None) =
                 Inr ([r], Some r)))"

text \<open>\<open>tops\<close> lists the positions of the \<open>n\<close> highest signed values of \<open>c\<close>, best
  first: no position left out holds a value above one that is listed.\<close>

definition highest :: "nat \<Rightarrow> vec \<Rightarrow> nat list \<Rightarrow> bool" where
  "highest n c tops \<longleftrightarrow>
     length tops = min n (length c) \<and> distinct tops \<and>
     list_all (\<lambda>i. i < length c) tops \<and>
     sorted_wrt (\<lambda>i j. c ! j \<le> c ! i) tops \<and>
     list_all (\<lambda>i. list_all (\<lambda>j. j \<in> set tops \<or> c ! j \<le> c ! i) [0..<length c]) tops"

section \<open>Example artifacts\<close>

text \<open>
  A model with three terms, four components and four documents, one of each source.
  The query \<^verbatim>\<open>chess\<close> encodes to the first unit vector; every other text shares no term
  with the vocabulary and encodes to the zero vector. The rows of \<open>docs_compressed\<close>
  have norm 1, and \<open>u\<close> holds multiples of them.
\<close>

definition demo_engine :: engine where
  "demo_engine =
     \<lparr>vectorizer = (\<lambda>t. if t = ''chess'' then [1, 0, 0] else [0, 0, 0]),
      word_to_index = [''chess'' \<mapsto> 0, ''fps'' \<mapsto> 1, ''irl'' \<mapsto> 2],
      index_to_word = [0 \<mapsto> ''chess'', 1 \<mapsto> ''fps'', 2 \<mapsto> ''irl''],
      u = [[4, - 4, 2, 0], [0, 0, 0, 5], [3, 0, 4, 0], [0, 2, 0, 0]],
      s = [4, 2, 1, 1],
      vt = [[1 / 2, 0, 0], [- 1, 1, 0], [1, 0, 1], [0, 1, 1]],
      docs_compressed =
        [[2 / 3, - 2 / 3, 1 / 3, 0], [0, 0, 0, 1], [3 / 5, 0, 4 / 5, 0], [0, 1, 0, 0]],
      doc_lookup =
        [0 \<mapsto> (''twitter'', ''Ann'', 0, PStr ''chess stream tonight''),
         1 \<mapsto> (''wiki'', ''Bob'', 0, PDict [(''wikipedia_summary'', PStr ''Bob plays shooters'')]),
         2 \<mapsto> (''reddit'', ''Cy'', 5,
                PDict [(''Title'', PStr ''Cy on chess''), (''Score'', PInt 7), (''ID'', PStr ''abc'')]),
         3 \<mapsto> (''details'', ''Dee'', 1, PDict [(''Description'', PStr ''outdoor streams'')])],
      dimension_labels = [''board games'', ''shooters'', ''talk'', ''outdoors'']\<rparr>"

text \<open>The same artifacts with the source tag of one document replaced by a tag the engine
  has no branch for.\<close>

definition retagged_engine :: "nat \<Rightarrow> engine" where
  "retagged_engine d =
     demo_engine\<lparr>doc_lookup :=
       (doc_lookup demo_engine)(d \<mapsto> (''youtube'', ''Eve'', 0, PStr ''a video''))\<rparr>"

text \<open>Two documents whose similarities to the query \<^verbatim>\<open>chess\<close>, 9999/10001 and 5100/5101,
  differ only in the sixth decimal place.\<close>

definition close_engine :: engine where
  "close_engine =
     \<lparr>vectorizer = (\<lambda>t. if t = ''chess'' then [1, 0] else [0, 0]),
      word_to_index = [''chess'' \<mapsto> 0, ''fps'' \<mapsto> 1],
      index_to_word = [0 \<mapsto> ''chess'', 1 \<mapsto> ''fps''],
      u = [[9999, 200], [5100, 101]],
      s = [2, 1],
      vt = [[1, 0], [0, 1]],
      docs_compressed = [[9999 / 10001, 200 / 10001], [5100 / 5101, 101 / 5101]],
      doc_lookup =
        [0 \<mapsto> (''twitter'', ''Ann'', 0, PStr ''chess stream tonight''),
         1 \<mapsto> (''twitter'', ''Bob'', 1, PStr ''chess with friends'')],
      dimension_labels = [''board games'', ''shooters'']\<rparr>"

text \<open>What the engine reports for \<^verbatim>\<open>chess\<close> on the first example.\<close>

definition demo_results :: "result list" where
  "demo_results =
     [\<lparr>source = ''twitter'', name = ''Ann'', doc = PStr ''chess stream tonight'',
       sim_score = 100, reddit_score = None, reddit_id = None,
       top_dimensions =
         [\<lparr>dim_index = 0, dim_label = ''board games'', contribution = 8 / 3\<rparr>,
          \<lparr>dim_index = 1, dim_label = ''shooters'', contribution = 8 / 3\<rparr>,
          \<lparr>dim_index = 2, dim_label = ''talk'', contribution = 2 / 3\<rparr>]\<rparr>,
      \<lparr>source = ''reddit'', name = ''Cy'', doc = PStr ''Cy on chess'',
       sim_score = 6667 / 100, reddit_score = Some (PInt 7), reddit_id = Some (PStr ''abc''),
       top_dimensions =
         [\<lparr>dim_index = 0, dim_label = ''board games'', contribution = 2\<rparr>,
          \<lparr>dim_index = 2, dim_label = ''talk'', contribution = 4 / 3\<rparr>,
          \<lparr>dim_index = 1, dim_label = ''shooters'', contribution = 0\<rparr>]\<rparr>,
      \<lparr>source = ''wiki'', name = ''Bob'', doc = PStr ''Bob plays shooters'',
       sim_score = 0, reddit_score = None, reddit_id = None,
       top_dimensions =
         [\<lparr>dim_index = 0, dim_label = ''board games'', contribution = 0\<rparr>,
          \<lparr>dim_index = 1, dim_label = ''shooters'', contribution = 0\<rparr>,
          \<lparr>dim_index = 2, dim_label = ''talk'', contribution = 0\<rparr>]\<rparr>,
      \<lparr>source = ''details'', name = ''Dee'', doc = PStr ''outdoor streams'',
       sim_score = - (6667 / 100), reddit_score = None, reddit_id = None,
       top_dimensions =
         [\<lparr>dim_index = 0, dim_label = ''board games'', contribution = 0\<rparr>,
          \<lparr>dim_index = 2, dim_label = ''talk'', contribution = 0\<rparr>,
          \<lparr>dim_index = 3, dim_label = ''outdoors'', contribution = 0\<rparr>]\<rparr>]"

section \<open>Diagnostics\<close>

text \<open>\<^verbatim>\<open>d[key]\<close> on a dictionary.\<close>

definition py_lookup :: "('k \<rightharpoonup> 'v) \<Rightarrow> 'k \<Rightarrow> py_error + 'v" where
  "py_lookup d key = (case d key of None \<Rightarrow> Inl KeyError | Some v \<Rightarrow> Inr v)"

text \<open>
  \<^verbatim>\<open>analyze_svd_components\<close>: for each position of \<open>dimension_labels\<close>, the row of
  \<open>vt\<close>, its \<open>n_terms\<close> best term indices turned into words, and the label.
\<close>

definition analyze_svd_components ::
  "(vec \<Rightarrow> nat list) \<Rightarrow> engine \<Rightarrow> int \<Rightarrow> py_error + (nat \<times> string list \<times> string) list" where
  "analyze_svd_components argsort eng n_terms =
     for_each (\<lambda>i results.
         ebind (py_nth (vt eng) i) (\<lambda>dimension.
         ebind (mapM_err (py_lookup (index_to_word eng))
                  (py_take n_terms (argsort (map uminus dimension)))) (\<lambda>top_terms.
         ebind (py_nth (dimension_labels eng) i) (\<lambda>lab.
           Inr (results @ [(i, top_terms, lab)])))))
       [0..<length (dimension_labels eng)] []"

text \<open>\<^verbatim>\<open>plot_singular_values\<close> returns the singular values as they are.\<close>

definition plot_singular_values :: "engine \<Rightarrow> vec" where
  "plot_singular_values eng = s eng"

section \<open>The process: clock, output and the streamer table\<close>

text \<open>
  What lies around the engine in \<^verbatim>\<open>app.py\<close>: the module's global engine and the
  dictionary \<^verbatim>\<open>streamer_csv_data\<close> (uppercase name to CSV row), the clock that
  \<^verbatim>\<open>time.time()\<close> reads, and the lines printed. A printed line is an event that carries
  the values the line is formatted from. A function that reads or changes any of these
  takes the process and returns the new one, also when it raises.
\<close>

datatype event = Found_top int real | Total_search_time real | No_twitch_data string

type_synonym row = "(string \<times> pyval) list"

record process =
  search_engine :: engine
  streamer_csv_data :: "string \<rightharpoonup> row"
  clock :: "nat \<Rightarrow> real"
  clock_reads :: nat
  stdout :: "event list"

definition time_time :: "process \<Rightarrow> real \<times> process" where
  "time_time p = (clock p (clock_reads p), p\<lparr>clock_reads := Suc (clock_reads p)\<rparr>)"

definition py_print :: "event \<Rightarrow> process \<Rightarrow> process" where
  "py_print e p = p\<lparr>stdout := stdout p @ [e]\<rparr>"

definition sbind ::
  "process \<times> (py_error + 'a) \<Rightarrow> ('a \<Rightarrow> process \<Rightarrow> process \<times> (py_error + 'b)) \<Rightarrow>
     process \<times> (py_error + 'b)" where
  "sbind m f = (case m of (p, Inl e) \<Rightarrow> (p, Inl e) | (p, Inr x) \<Rightarrow> f x p)"

fun for_each_st ::
  "('a \<Rightarrow> 'st \<Rightarrow> process \<Rightarrow> process \<times> (py_error + 'st)) \<Rightarrow> 'a list \<Rightarrow> 'st \<Rightarrow> process \<Rightarrow>
     process \<times> (py_error + 'st)" where
  "for_each_st body [] st p = (p, Inr st)"
| "for_each_st body (x # xs) st p = sbind (body x st p) (\<lambda>st'. for_each_st body xs st')"

text \<open>
  The method \<^verbatim>\<open>query\<close> with its effects: it reads the clock when it starts, after the
  ranking and at the end, and prints the two elapsed times. Its result is that of
  \<open>query\<close>.
\<close>

definition query_method ::
  "(vec \<Rightarrow> nat list) \<Rightarrow> process \<Rightarrow> string \<Rightarrow> int \<Rightarrow> process \<times> (py_error + result list)" where
  "query_method argsort p query_text top_k =
     (let eng = search_engine p; (start_time, p1) = time_time p
      in case ebind (project_query eng query_text) (\<lambda>query_vec_norm.
              ebind (matmul_T (docs_compressed eng) query_vec_norm) (\<lambda>similarities.
                Inr (query_vec_norm, similarities))) of
           Inl e \<Rightarrow> (p1, Inl e)
         | Inr (query_vec_norm, similarities) \<Rightarrow>
             (let ordinals = top_indices argsort similarities top_k;
                  (t1, p2) = time_time p1;
                  p3 = py_print (Found_top top_k (t1 - start_time)) p2
              in case for_each (query_body argsort eng similarities query_vec_norm)
                        ordinals ([], None) of
                   Inl e \<Rightarrow> (p3, Inl e)
                 | Inr st \<Rightarrow>
                     (let (t2, p4) = time_time p3;
                          p5 = py_print (Total_search_time (t2 - start_time)) p4
                      in (p5, Inr (fst st)))))"

text \<open>
  The string methods the lookups use, on ASCII letters and ASCII white space; other
  characters are left as they are. Python's \<^verbatim>\<open>upper\<close>, \<^verbatim>\<open>lower\<close>, \<^verbatim>\<open>title\<close> and \<^verbatim>\<open>strip\<close>
  also act on letters and white space outside ASCII (an accented letter, a no-break
  space): a streamer name or a CSV cell that holds such a character is outside the
  model.
\<close>

definition lower_letters :: string where
  "lower_letters = ''abcdefghijklmnopqrstuvwxyz''"

definition upper_letters :: string where
  "upper_letters = ''ABCDEFGHIJKLMNOPQRSTUVWXYZ''"

definition is_lower :: "char \<Rightarrow> bool" where
  "is_lower c \<longleftrightarrow> c \<in> set lower_letters"

definition is_upper :: "char \<Rightarrow> bool" where
  "is_upper c \<longleftrightarrow> c \<in> set upper_letters"

definition upper_char :: "char \<Rightarrow> char" where
  "upper_char c = (case map_of (zip lower_letters upper_letters) c of Some C \<Rightarrow> C | None \<Rightarrow> c)"

definition lower_char :: "char \<Rightarrow> char" where
  "lower_char c = (case map_of (zip upper_letters lower_letters) c of Some l \<Rightarrow> l | None \<Rightarrow> c)"

definition py_upper :: "string \<Rightarrow> string" where
  "py_upper t = map upper_char t"

definition py_lower :: "string \<Rightarrow> string" where
  "py_lower t = map lower_char t"

fun title_from :: "bool \<Rightarrow> string \<Rightarrow> string" where
  "title_from previous_is_cased [] = []"
| "title_from previous_is_cased (c # cs) =
     (if is_lower c then
        (if previous_is_cased then c else upper_char c) # title_from True cs
      else if is_upper c then
        (if previous_is_cased then lower_char c else c) # title_from True cs
      else c # title_from False cs)"

definition py_title :: "string \<Rightarrow> string" where
  "py_title t = title_from False t"

definition is_space :: "char \<Rightarrow> bool" where
  "is_space c \<longleftrightarrow>
     c \<in> set [CHR 0x09, CHR 0x0A, CHR 0x0B, CHR 0x0C, CHR 0x0D,
               CHR 0x1C, CHR 0x1D, CHR 0x1E, CHR 0x1F, CHR 0x20]"

definition py_strip :: "string \<Rightarrow> string" where
  "py_strip t = rev (dropWhile is_space (rev (dropWhile is_space t)))"

definition remove_spaces :: "string \<Rightarrow> string" where
  "remove_spaces t = filter (\<lambda>c. c \<noteq> CHR '' '') t"

text \<open>\<^verbatim>\<open>data[key] = v\<close> on a row.\<close>

definition dict_set :: "string \<Rightarrow> pyval \<Rightarrow> row \<Rightarrow> row" where
  "dict_set key v data =
     (if map_of data key = None then data @ [(key, v)]
      else map (\<lambda>(k, w). if k = key then (k, v) else (k, w)) data)"

text \<open>\<^verbatim>\<open>"Twitch URL" in data and data["Twitch URL"].strip()\<close>, as a truth value; a cell
  that is not a string has no \<^verbatim>\<open>strip\<close>.\<close>

definition has_twitch_url :: "row \<Rightarrow> py_error + bool" where
  "has_twitch_url data =
     (case map_of data ''Twitch URL'' of
        None \<Rightarrow> Inr False
      | Some (PStr v) \<Rightarrow> Inr (py_strip v \<noteq> [])
      | Some _ \<Rightarrow> Inl AttributeError)"

text \<open>
  \<^verbatim>\<open>get_twitch_info\<close> returns a row of \<^verbatim>\<open>streamer_csv_data\<close> itself, not a copy: the
  result is the key of that row, and what the row holds is read from the table when the
  response is written. A row without a Twitch URL gets the key \<^verbatim>\<open>url\<close>, in the table.
\<close>

fun twitch_variants ::
  "string \<Rightarrow> string list \<Rightarrow> process \<Rightarrow> process \<times> (py_error + string option)" where
  "twitch_variants streamer_name [] p = (py_print (No_twitch_data streamer_name) p, Inr None)"
| "twitch_variants streamer_name (name_variant # variants) p =
     (case streamer_csv_data p name_variant of
        None \<Rightarrow> twitch_variants streamer_name variants p
      | Some data \<Rightarrow>
          (case has_twitch_url data of
             Inl e \<Rightarrow> (p, Inl e)
           | Inr True \<Rightarrow> (p, Inr (Some name_variant))
           | Inr False \<Rightarrow>
               (p\<lparr>streamer_csv_data := (streamer_csv_data p)
                    (name_variant \<mapsto>
                       dict_set ''url'' (PStr (''https://www.twitch.tv/'' @ streamer_name)) data)\<rparr>,
                Inr (Some name_variant))))"

definition get_twitch_info :: "string \<Rightarrow> process \<Rightarrow> process \<times> (py_error + string option)" where
  "get_twitch_info streamer_name p =
     twitch_variants streamer_name
       [streamer_name, py_upper streamer_name, py_lower streamer_name, py_title streamer_name,
        remove_spaces streamer_name] p"

definition get_streamer_image_path :: "string \<Rightarrow> string" where
  "get_streamer_image_path streamer_name =
     ''images/streamer_images/'' @ py_upper streamer_name @ ''.jpg''"

definition get_csv_streamer_info :: "process \<Rightarrow> string \<Rightarrow> row option" where
  "get_csv_streamer_info p streamer_name =
     streamer_csv_data p (py_strip (py_upper streamer_name))"

text \<open>
  The endpoint \<^verbatim>\<open>/search\<close>. \<open>args\<close> are the parameters of the request. The results are
  grouped by streamer in the order of their first appearance; an entry of the response
  has the keys name, documents, twitch_info, image_path and csv_data.
\<close>

record streamer_group =
  documents :: "result list"
  twitch_info :: "string option"
  total_score :: real

record streamer_entry =
  entry_name :: string
  entry_documents :: "result list"
  entry_twitch_info :: "row option"
  image_path :: string
  csv_data :: "row option"

definition group_body ::
  "result \<Rightarrow> (string \<times> streamer_group) list \<Rightarrow> process \<Rightarrow>
     process \<times> (py_error + (string \<times> streamer_group) list)" where
  "group_body r streamer_results p =
     (let streamer = name r
      in sbind (if map_of streamer_results streamer = None
                then sbind (get_twitch_info streamer p) (\<lambda>info p'.
                       (p', Inr (streamer_results @
                          [(streamer, \<lparr>documents = [], twitch_info = info, total_score = 0\<rparr>)])))
                else (p, Inr streamer_results))
           (\<lambda>groups p'.
              (p', Inr (map (\<lambda>(key, g).
                   if key = streamer
                   then (key, g\<lparr>documents := documents g @ [r],
                                total_score := total_score g + sim_score r\<rparr>)
                   else (key, g)) groups))))"

definition search_streamer ::
  "(vec \<Rightarrow> nat list) \<Rightarrow> process \<Rightarrow> (string \<rightharpoonup> string) \<Rightarrow>
     process \<times> (py_error + streamer_entry list)" where
  "search_streamer argsort p args =
     (let query = (case args ''name'' of None \<Rightarrow> [] | Some v \<Rightarrow> v)
      in if query = [] then (p, Inr [])
         else
           sbind (query_method argsort p query 50) (\<lambda>results p1.
           sbind (for_each_st group_body results [] p1) (\<lambda>streamer_results p2.
             (let final_results =
                    map (\<lambda>(streamer, data).
                      \<lparr>entry_name = streamer,
                        entry_documents = py_take 5 (documents data),
                        entry_twitch_info =
                          (case twitch_info data of
                             None \<Rightarrow> None
                           | Some key \<Rightarrow> streamer_csv_data p2 key),
                        image_path = get_streamer_image_path streamer,
                        csv_data = get_csv_streamer_info p2 streamer\<rparr>) streamer_results;
                  ranked =
                    sort_key (\<lambda>x. - sum_list (map sim_score (entry_documents x))) final_results
              in (p2, Inr (py_take 10 ranked))))))"

text \<open>A process over the first example, with two rows in the streamer table, and the
  same process later: the clock has been read, a line has been printed.\<close>

definition demo_process :: process where
  "demo_process =
     \<lparr>search_engine = demo_engine,
      streamer_csv_data =
        [''ANN'' \<mapsto> [(''Name'', PStr ''Ann''), (''Twitch URL'', PStr ''https://www.twitch.tv/ann'')],
         ''BOB'' \<mapsto> [(''Name'', PStr ''Bob''), (''Twitch URL'', PStr [])]],
      clock = (\<lambda>n. real n / 1000),
      clock_reads = 0,
      stdout = []\<rparr>"

definition later_process :: process where
  "later_process =
     demo_process\<lparr>clock := (\<lambda>n. 5 + real n), clock_reads := 7,
       stdout := [No_twitch_data ''Cy'']\<rparr>"

section \<open>Loading the model\<close>

text \<open>
  \<^verbatim>\<open>load_model\<close> reads the files of the models directory and assigns the attributes of
  the engine; it relates none of them to another. \<open>model_files\<close> is what the files
  hold once unpickled; a missing file and the two lines the method prints are outside
  the model.
\<close>

record fitted_vectorizer =
  transform :: "string \<Rightarrow> vec"
  vocabulary :: "string \<rightharpoonup> nat"

record model_files =
  vectorizer_pkl :: fitted_vectorizer
  u_matrix_npy :: mat
  s_values_npy :: vec
  vt_matrix_npy :: mat
  docs_compressed_npy :: mat
  doc_lookup_pkl :: "nat \<rightharpoonup> (string \<times> string \<times> int \<times> pyval)"
  index_to_word_pkl :: "nat \<rightharpoonup> string"
  dimension_labels_pkl :: "string list"

definition load_model :: "model_files \<Rightarrow> engine" where
  "load_model files =
     \<lparr>vectorizer = transform (vectorizer_pkl files),
      word_to_index = vocabulary (vectorizer_pkl files),
      index_to_word = index_to_word_pkl files,
      u = u_matrix_npy files,
      s = s_values_npy files,
      vt = vt_matrix_npy files,
      docs_compressed = docs_compressed_npy files,
      doc_lookup = doc_lookup_pkl files,
      dimension_labels = dimension_labels_pkl files\<rparr>"

text \<open>
  Modelled from the spec: the two vocabulary tables that the saved files hold. The code
  that fits the vectorizer and writes \<^verbatim>\<open>vectorizer.pkl\<close> and \<^verbatim>\<open>index_to_word.pkl\<close> is
  not part of the sources at hand. The spec describes the vocabulary as a bijection
  between the term strings and the integer indices, of size \<open>n_terms\<close>: a vocabulary is
  taken to be the list of its terms, the term at position \<open>i\<close> having the index \<open>i\<close>, and
  the two tables are the two directions of that enumeration.
\<close>

definition vocabulary_tables :: "string list \<Rightarrow> (string \<rightharpoonup> nat) \<times> (nat \<rightharpoonup> string)" where
  "vocabulary_tables terms =
     (map_of (zip terms [0..<length terms]), map_of (zip [0..<length terms] terms))"

text \<open>The files of the first example.\<close>

definition demo_files :: model_files where
  "demo_files =
     \<lparr>vectorizer_pkl =
        \<lparr>transform = vectorizer demo_engine,
         vocabulary = fst (vocabulary_tables [''chess'', ''fps'', ''irl''])\<rparr>,
      u_matrix_npy = u demo_engine,
      s_values_npy = s demo_engine,
      vt_matrix_npy = vt demo_engine,
      docs_compressed_npy = docs_compressed demo_engine,
      doc_lookup_pkl = doc_lookup demo_engine,
      index_to_word_pkl = snd (vocabulary_tables [''chess'', ''fps'', ''irl'']),
      dimension_labels_pkl = dimension_labels demo_engine\<rparr>"

section \<open>Sequencing, slices and the sort contract\<close>

lemma ebind_Inr_iff: "ebind m f = Inr y \<longleftrightarrow> (\<exists>x. m = Inr x \<and> f x = Inr y)"
  by (cases m) (simp_all add: ebind_def)

lemma ebind_Inr [simp]: "ebind (Inr x) f = f x"
  by (simp add: ebind_def)

lemma ebind_Inl [simp]: "ebind (Inl e) f = Inl e"
  by (simp add: ebind_def)

lemma mapM_err_total:
  "(\<And>x. x \<in> set xs \<Longrightarrow> f x = Inr (g x)) \<Longrightarrow> mapM_err f xs = Inr (map g xs)"
  by (induction xs) simp_all

lemma py_take_prefix: "\<exists>n. py_take k xs = take n xs"
  by (auto simp: py_take_def)

lemma py_take_length: "0 \<le> k \<Longrightarrow> length (py_take k xs) = min (nat k) (length xs)"
  by (simp add: py_take_def)

lemma set_py_take: "set (py_take k xs) \<subseteq> set xs"
  using py_take_prefix [of k xs] by (auto dest: in_set_takeD)

lemma distinct_py_take: "distinct xs \<Longrightarrow> distinct (py_take k xs)"
  using py_take_prefix [of k xs] by auto

lemma sorted_wrt_py_take: "sorted_wrt P xs \<Longrightarrow> sorted_wrt P (py_take k xs)"
  using py_take_prefix [of k xs] by (auto simp: sorted_wrt_take)

lemma stable_argsort_ok: "argsort_ok stable_argsort"
  by (auto simp: argsort_ok_def is_argsort_def stable_argsort_def sorted_sort_key)

lemma argsort_length: "argsort_ok argsort \<Longrightarrow> length (argsort xs) = length xs"
proof -
  assume "argsort_ok argsort"
  then have d: "distinct (argsort xs)" and e: "set (argsort xs) = {0..<length xs}"
    by (simp_all add: argsort_ok_def is_argsort_def)
  from distinct_card [OF d] e show ?thesis by simp
qed

lemma project_query_row:
  "project_query eng t = Inr m \<Longrightarrow> \<exists>qn. m = [qn] \<and> length qn = length (s eng)"
  by (auto simp: project_query_def Let_def matmul_T_def matmul_diag_def ebind_Inr_iff normalize_rows_def
      split: if_splits)

lemma similarities_rows:
  "matmul_T docs [qn] = Inr sims \<Longrightarrow> sims = map (\<lambda>r. [dot r qn]) docs"
  by (auto simp: matmul_T_def split: if_splits)

lemma concat_singletons: "concat (map (\<lambda>r. [f r]) xs) = map f xs"
  by (induction xs) simp_all


lemma snippet_str:
  "snippet (PStr t) = Inr (PStr (if 150 < length t then take 150 t @ ''...'' else t))"
  by (simp add: snippet_def)

lemma is_strE: "is_str v \<Longrightarrow> \<exists>t. v = PStr t"
  by (cases v) simp_all

lemma shape_result_ok:
  assumes "payload_ok src data"
  shows "\<exists>r. shape_result src streamer data sim tds = Inr (Some r) \<and>
     source r = src \<and> name r = streamer \<and> sim_score r = py_round2 (sim * 100) \<and>
     top_dimensions r = tds"
proof -
  consider (reddit) "src = ''reddit''" | (twitter) "src = ''twitter''"
    | (wiki) "src = ''wiki''" | (details) "src = ''details''"
    using assms by (auto simp: payload_ok_def split: if_splits)
  then show ?thesis
  proof cases
    case reddit
    with assms obtain d t score rid where d: "data = PDict d"
      and "map_of d ''Title'' = Some (PStr t)" "map_of d ''Score'' = Some score"
      "map_of d ''ID'' = Some rid"
      by (auto simp: payload_ok_def split: pyval.splits option.splits dest!: is_strE)
    with reddit show ?thesis
      by (auto simp: shape_result_def snippet_str)
  next
    case twitter
    with assms obtain t where "data = PStr t"
      by (auto simp: payload_ok_def dest!: is_strE)
    with twitter show ?thesis
      by (auto simp: shape_result_def snippet_str)
  next
    case wiki
    with assms consider t where "data = PStr t" | n where "data = PInt n"
      | d t where "data = PDict d" "map_of d ''wikipedia_summary'' = Some (PStr t)"
      by (cases data) (auto simp: payload_ok_def split: option.splits dest!: is_strE)
    then show ?thesis
    proof cases
      case 1
      with wiki show ?thesis by (auto simp: shape_result_def snippet_str)
    next
      case 2
      with wiki show ?thesis by (auto simp: shape_result_def snippet_str)
    next
      case 3
      with wiki show ?thesis by (auto simp: shape_result_def snippet_str)
    qed
  next
    case details
    with assms obtain d where d: "data = PDict d"
      and "map_of d ''Description'' = None \<or> (\<exists>t. map_of d ''Description'' = Some (PStr t))"
      by (cases data) (auto simp: payload_ok_def split: option.splits dest!: is_strE)
    with details show ?thesis
      by (auto simp: shape_result_def snippet_str)
  qed
qed


lemma shape_result_fields:
  "shape_result src streamer data sim tds = Inr (Some r) \<Longrightarrow>
     recognised src \<and> source r = src \<and> name r = streamer \<and>
     sim_score r = py_round2 (sim * 100) \<and> top_dimensions r = tds"
  by (auto simp: shape_result_def recognised_def ebind_Inr_iff split: if_splits)

lemma shape_result_None:
  "shape_result src streamer data sim tds = Inr None \<Longrightarrow> \<not> recognised src"
  by (auto simp: shape_result_def recognised_def ebind_Inr_iff split: if_splits)

lemma query_body_cases:
  assumes "query_body argsort eng sims qvn d st = Inr st'"
  shows "\<exists>r. st' = (fst st @ [r], Some r) \<and>
     (query_body argsort eng sims qvn d ([], None) = Inr ([r], Some r) \<or> snd st = Some r)"
  using assms
  by (auto simp: query_body_def ebind_Inr_iff split: option.splits prod.splits)

lemma query_body_fresh:
  assumes "query_body argsort eng sims qvn d ([], None) = Inr ([r], Some r)"
  shows "query_body argsort eng sims qvn d st = Inr (fst st @ [r], Some r)"
  using assms
  by (auto simp: query_body_def ebind_Inr_iff split: option.splits prod.splits)

lemma query_body_fresh_fields:
  assumes "query_body argsort eng sims qvn d ([], None) = Inr ([r], Some r)"
  shows "\<exists>src streamer idx data. doc_lookup eng d = Some (src, streamer, idx, data) \<and>
     recognised src \<and> source r = src \<and> name r = streamer \<and>
     d < length sims \<and> 0 < length (sims ! d) \<and>
     sim_score r = py_round2 (sims ! d ! 0 * 100) \<and>
     top_dims argsort eng qvn d = Inr (top_dimensions r)"
proof -
  from assms obtain src streamer idx data sim tds where
    l: "doc_lookup eng d = Some (src, streamer, idx, data)"
    and s: "ebind (py_nth sims d) (\<lambda>row. py_nth row 0) = Inr sim"
    and t: "top_dims argsort eng qvn d = Inr tds"
    and r: "shape_result src streamer data sim tds = Inr (Some r)"
    by (auto simp: query_body_def ebind_Inr_iff split: option.splits prod.splits)
  from s have "d < length sims \<and> 0 < length (sims ! d) \<and> sim = sims ! d ! 0"
    by (auto simp: ebind_Inr_iff py_nth_def split: if_splits)
  with l t shape_result_fields [OF r] show ?thesis by auto
qed

lemma for_each_fresh:
  assumes "\<And>d. d \<in> set ds \<Longrightarrow> \<exists>r. body d ([], None) = Inr ([r], Some r)"
    and "\<And>d r st. body d ([], None) = Inr ([r], Some r) \<Longrightarrow> body d st = Inr (fst st @ [r], Some r)"
  shows "\<exists>rs st'. for_each body ds st = Inr st' \<and> fst st' = fst st @ rs \<and>
     list_all2 (\<lambda>d r. body d ([], None) = Inr ([r], Some r)) ds rs"
  using assms(1)
proof (induction ds arbitrary: st)
  case Nil
  then show ?case by simp
next
  case (Cons d ds)
  from Cons.prems obtain r where r: "body d ([], None) = Inr ([r], Some r)"
    by auto
  then have b: "body d st = Inr (fst st @ [r], Some r)"
    by (rule assms(2))
  from Cons.IH [of "(fst st @ [r], Some r)"] Cons.prems
  obtain rs st' where "for_each body ds (fst st @ [r], Some r) = Inr st'"
    "fst st' = (fst st @ [r]) @ rs"
    "list_all2 (\<lambda>d r. body d ([], None) = Inr ([r], Some r)) ds rs"
    by auto
  with b r show ?case
    by (intro exI [of _ "r # rs"] exI [of _ st']) simp
qed

lemma argsort_set: "argsort_ok argsort \<Longrightarrow> set (argsort xs) = {0..<length xs}"
  by (simp add: argsort_ok_def is_argsort_def)

lemma argsort_distinct: "argsort_ok argsort \<Longrightarrow> distinct (argsort xs)"
  by (simp add: argsort_ok_def is_argsort_def)

lemma argsort_sorted: "argsort_ok argsort \<Longrightarrow> sorted (map (\<lambda>i. xs ! i) (argsort xs))"
  by (simp add: argsort_ok_def is_argsort_def)

lemma top_idx_bound:
  assumes ok: "argsort_ok argsort" and i: "i \<in> set (py_take k (argsort xs))"
  shows "i < length xs"
proof -
  from i set_py_take [of k "argsort xs"] have "i \<in> set (argsort xs)" by blast
  then show ?thesis unfolding argsort_set [OF ok] by simp
qed

lemma top_dims_entries:
  assumes ok: "argsort_ok argsort" and lab: "length labels = length c"
  shows "mapM_err (\<lambda>dim_idx.
        ebind (py_nth labels dim_idx) (\<lambda>lab.
        ebind (py_nth c dim_idx) (\<lambda>x.
          Inr \<lparr>dim_index = dim_idx, dim_label = lab, contribution = x\<rparr>)))
      (py_take k (argsort (map uminus c))) =
    Inr (map (\<lambda>i. \<lparr>dim_index = i, dim_label = labels ! i, contribution = c ! i\<rparr>)
      (py_take k (argsort (map uminus c))))"
proof (rule mapM_err_total)
  fix i assume "i \<in> set (py_take k (argsort (map uminus c)))"
  from top_idx_bound [OF ok this] have "i < length c" by simp
  with lab show "ebind (py_nth labels i) (\<lambda>lab.
        ebind (py_nth c i) (\<lambda>x.
          Inr \<lparr>dim_index = i, dim_label = lab, contribution = x\<rparr>)) =
     Inr \<lparr>dim_index = i, dim_label = labels ! i, contribution = c ! i\<rparr>"
    by (simp add: py_nth_def)
qed

lemma top_dims_ok:
  assumes ok: "argsort_ok argsort" and d: "d < length (u eng)"
    and len: "length (u eng ! d) = length qn"
    and lab: "length (dimension_labels eng) = length qn"
  shows "top_dims argsort eng [qn] d =
     Inr (map (\<lambda>i. \<lparr>dim_index = i, dim_label = dimension_labels eng ! i,
                     contribution = map2 (*) (u eng ! d) qn ! i\<rparr>)
            (py_take 3 (argsort (map uminus (map2 (*) (u eng ! d) qn)))))"
proof -
  have l: "length (dimension_labels eng) = length (map2 (*) (u eng ! d) qn)"
    using len lab by simp
  have m: "np_mul (u eng ! d) qn = Inr (map2 (*) (u eng ! d) qn)"
    using len by (simp add: np_mul_def)
  have n: "py_nth (u eng) d = Inr (u eng ! d)" "py_nth [qn] 0 = Inr qn"
    using d by (simp_all add: py_nth_def)
  show ?thesis
    by (simp only: top_dims_def n m ebind_Inr Let_def top_dims_entries [OF ok l])
qed

section \<open>A query over well-formed artifacts\<close>

lemma wf_project:
  assumes "well_formed eng t"
  shows "\<exists>qn. project_query eng t = Inr [qn] \<and> length qn = length (s eng)"
proof -
  from assms have a: "list_all (\<lambda>c. length (vectorizer eng t) = length c) (vt eng)"
    and b: "length (vt eng) = length (s eng)" and c: "s eng \<noteq> []"
    by (auto simp: well_formed_def list_all_iff)
  from b c have "vt eng \<noteq> []" by auto
  with a b c show ?thesis
    by (simp add: project_query_def matmul_T_def matmul_diag_def normalize_rows_def)
qed

lemma wf_similarities:
  assumes "well_formed eng t" "length qn = length (s eng)"
  shows "matmul_T (docs_compressed eng) [qn] = Inr (map (\<lambda>r. [dot r qn]) (docs_compressed eng))"
  using assms by (simp add: well_formed_def matmul_T_def list_all_iff)

lemma wf_query_body:
  assumes ok: "argsort_ok argsort" and wf: "well_formed eng t"
    and qn: "length qn = length (s eng)" and d: "d < length (docs_compressed eng)"
  shows "\<exists>r. query_body argsort eng (map (\<lambda>r. [dot r qn]) (docs_compressed eng)) [qn] d ([], None) =
     Inr ([r], Some r)"
proof -
  from wf have "list_all (\<lambda>d. case doc_lookup eng d of None \<Rightarrow> False
      | Some (src, streamer, idx, data) \<Rightarrow> payload_ok src data) [0..<length (docs_compressed eng)]"
    by (simp add: well_formed_def)
  with d have "case doc_lookup eng d of None \<Rightarrow> False
      | Some (src, streamer, idx, data) \<Rightarrow> payload_ok src data"
    by (simp add: list_all_iff)
  then obtain src streamer idx data where
    l: "doc_lookup eng d = Some (src, streamer, idx, data)" and p: "payload_ok src data"
    by (auto split: option.splits)
  from wf d qn have du: "d < length (u eng)" and len: "length (u eng ! d) = length qn"
    and lab: "length (dimension_labels eng) = length qn"
    by (simp_all add: well_formed_def list_all_iff)
  note td = top_dims_ok [OF ok du len lab]
  from shape_result_ok [OF p, of streamer "dot (docs_compressed eng ! d) qn"
      "map (\<lambda>i. \<lparr>dim_index = i, dim_label = dimension_labels eng ! i,
                     contribution = map2 (*) (u eng ! d) qn ! i\<rparr>)
            (py_take 3 (argsort (map uminus (map2 (*) (u eng ! d) qn))))"]
  obtain r where "shape_result src streamer data (dot (docs_compressed eng ! d) qn)
      (map (\<lambda>i. \<lparr>dim_index = i, dim_label = dimension_labels eng ! i,
                     contribution = map2 (*) (u eng ! d) qn ! i\<rparr>)
            (py_take 3 (argsort (map uminus (map2 (*) (u eng ! d) qn))))) = Inr (Some r)"
    by blast
  with l d td show ?thesis
    by (simp add: query_body_def py_nth_def)
qed


lemma top_indices_bound:
  assumes ok: "argsort_ok argsort" and d: "d \<in> set (top_indices argsort (map (\<lambda>r. [f r]) docs) k)"
  shows "d < length docs"
  using top_idx_bound [OF ok, of d k "map uminus (map f docs)"] d
  by (simp add: top_indices_def concat_singletons)

lemma top_indices_distinct:
  "argsort_ok argsort \<Longrightarrow> distinct (top_indices argsort sims k)"
  by (simp add: top_indices_def distinct_py_take argsort_distinct)

lemma top_indices_length:
  assumes "argsort_ok argsort" "0 \<le> k"
  shows "length (top_indices argsort (map (\<lambda>r. [f r]) docs) k) = min (nat k) (length docs)"
  using assms by (simp add: top_indices_def py_take_length argsort_length concat_singletons)

lemma wf_run:
  assumes ok: "argsort_ok argsort" and wf: "well_formed eng t"
  shows "\<exists>qn rs. project_query eng t = Inr [qn] \<and> length qn = length (s eng) \<and>
     ranking argsort eng t k =
       Inr (top_indices argsort (map (\<lambda>r. [dot r qn]) (docs_compressed eng)) k) \<and>
     query argsort eng t k = Inr rs \<and>
     list_all2 (record_of argsort eng t)
       (top_indices argsort (map (\<lambda>r. [dot r qn]) (docs_compressed eng)) k) rs"
proof -
  from wf_project [OF wf] obtain qn where
    p: "project_query eng t = Inr [qn]" and qn: "length qn = length (s eng)"
    by blast
  let ?sims = "map (\<lambda>r. [dot r qn]) (docs_compressed eng)"
  let ?body = "query_body argsort eng ?sims [qn]"
  note m = wf_similarities [OF wf qn]
  have "\<exists>r. ?body d ([], None) = Inr ([r], Some r)"
    if "d \<in> set (top_indices argsort ?sims k)" for d
    using wf_query_body [OF ok wf qn top_indices_bound [OF ok that]] .
  from for_each_fresh [of "top_indices argsort ?sims k" ?body "([], None)", OF this query_body_fresh]
  obtain rs st' where f: "for_each ?body (top_indices argsort ?sims k) ([], None) = Inr st'"
    and rs: "fst st' = rs"
    and all: "list_all2 (\<lambda>d r. ?body d ([], None) = Inr ([r], Some r))
       (top_indices argsort ?sims k) rs"
    by auto
  have "record_of argsort eng t = (\<lambda>d r. ?body d ([], None) = Inr ([r], Some r))"
    by (intro ext) (simp add: record_of_def p m)
  with all have all': "list_all2 (record_of argsort eng t) (top_indices argsort ?sims k) rs"
    by simp
  have "query argsort eng t k = Inr rs"
    by (simp add: query_def p m f rs)
  moreover have "ranking argsort eng t k = Inr (top_indices argsort ?sims k)"
    by (simp add: ranking_def p m)
  ultimately show ?thesis
    using p qn all' by blast
qed


section \<open>Rounding and the order of the results\<close>

lemma round_half_even_bounds: "\<lfloor>x\<rfloor> \<le> round_half_even x \<and> round_half_even x \<le> \<lfloor>x\<rfloor> + 1"
  by (simp add: round_half_even_def Let_def)

lemma round_half_even_mono:
  assumes "x \<le> y"
  shows "round_half_even x \<le> round_half_even y"
proof -
  from assms have "\<lfloor>x\<rfloor> \<le> \<lfloor>y\<rfloor>" by (rule floor_mono)
  then consider (same) "\<lfloor>x\<rfloor> = \<lfloor>y\<rfloor>" | (less) "\<lfloor>x\<rfloor> + 1 \<le> \<lfloor>y\<rfloor>"
    by linarith
  then show ?thesis
  proof cases
    case same
    with assms show ?thesis
      by (auto simp: round_half_even_def Let_def)
  next
    case less
    with round_half_even_bounds [of x] round_half_even_bounds [of y] show ?thesis
      by linarith
  qed
qed

lemma py_round2_mono: "x \<le> y \<Longrightarrow> py_round2 x \<le> py_round2 y"
  by (simp add: py_round2_def round_half_even_mono divide_right_mono)

lemma for_each_sorted:
  assumes body: "\<And>d st st'. body d st = Inr st' \<Longrightarrow>
      \<exists>r. st' = (fst st @ [r], Some r) \<and> (score r = key d \<or> snd st = Some r)"
    and run: "for_each body ds st = Inr st'"
    and ds: "sorted_wrt (\<lambda>a b. key b \<le> key a) ds"
    and acc: "sorted_wrt (\<lambda>a b. score b \<le> score a) (fst st)"
    and unbound: "snd st = None \<Longrightarrow> fst st = []"
    and low: "\<And>r x. snd st = Some r \<Longrightarrow> x \<in> set (fst st) \<Longrightarrow> score r \<le> score x"
    and high: "\<And>r d. snd st = Some r \<Longrightarrow> d \<in> set ds \<Longrightarrow> key d \<le> score r"
  shows "sorted_wrt (\<lambda>a b. (score b :: real) \<le> score a) (fst st')"
  using run ds acc unbound low high
proof (induction ds arbitrary: st)
  case Nil
  then show ?case by simp
next
  case (Cons d ds)
  from Cons.prems(1) obtain st1 where b: "body d st = Inr st1"
    and rest: "for_each body ds st1 = Inr st'"
    by (auto simp: ebind_Inr_iff)
  from body [OF b] obtain r where st1: "st1 = (fst st @ [r], Some r)"
    and r: "score r = key d \<or> snd st = Some r"
    by blast
  have below: "score r \<le> score x" if "x \<in> set (fst st)" for x
  proof (cases "snd st")
    case None
    with Cons.prems(4) that show ?thesis by simp
  next
    case (Some r0)
    from r show ?thesis
    proof
      assume "score r = key d"
      moreover have "key d \<le> score r0" using Cons.prems(6) [OF Some] by simp
      moreover have "score r0 \<le> score x" using Cons.prems(5) [OF Some that] .
      ultimately show ?thesis by simp
    next
      assume "snd st = Some r"
      from Cons.prems(5) [OF this that] show ?thesis .
    qed
  qed
  have above: "key d' \<le> score r" if "d' \<in> set ds" for d'
    using r
  proof
    assume "score r = key d"
    with Cons.prems(2) that show ?thesis by auto
  next
    assume "snd st = Some r"
    from Cons.prems(6) [OF this] that show ?thesis by simp
  qed
  show ?case
  proof (rule Cons.IH [OF rest])
    show "sorted_wrt (\<lambda>a b. key b \<le> key a) ds" using Cons.prems(2) by simp
    show "sorted_wrt (\<lambda>a b. score b \<le> score a) (fst st1)"
      using Cons.prems(3) below by (simp add: st1 sorted_wrt_append)
    show "fst st1 = []" if "snd st1 = None" using that by (simp add: st1)
    show "score r' \<le> score x" if "snd st1 = Some r'" "x \<in> set (fst st1)" for r' x
      using that below by (auto simp: st1)
    show "key d' \<le> score r'" if "snd st1 = Some r'" "d' \<in> set ds" for r' d'
      using that above by (auto simp: st1)
  qed
qed

lemma ranked_by_similarity:
  assumes ok: "argsort_ok argsort"
  shows "sorted_wrt (\<lambda>a b. f (docs ! b) \<le> (f (docs ! a) :: real))
     (top_indices argsort (map (\<lambda>r. [f r]) docs) k)"
proof -
  let ?xs = "map uminus (map f docs)"
  from argsort_sorted [OF ok, of ?xs]
  have "sorted_wrt (\<lambda>a b. ?xs ! a \<le> ?xs ! b) (argsort ?xs)"
    by (simp only: sorted_map)
  moreover have "f (docs ! b) \<le> f (docs ! a)"
    if "a \<in> set (argsort ?xs)" "b \<in> set (argsort ?xs)" "?xs ! a \<le> ?xs ! b" for a b
  proof -
    from that(1,2) have "a < length docs" "b < length docs"
      unfolding argsort_set [OF ok] by simp_all
    with that(3) show ?thesis by simp
  qed
  ultimately have "sorted_wrt (\<lambda>a b. f (docs ! b) \<le> f (docs ! a)) (argsort ?xs)"
    by (rule sorted_wrt_mono_rel [rotated])
  then show ?thesis
    by (simp only: top_indices_def concat_singletons sorted_wrt_py_take)
qed

lemma query_run:
  assumes "query argsort eng t k = Inr rs"
  shows "\<exists>qn st. project_query eng t = Inr [qn] \<and>
     matmul_T (docs_compressed eng) [qn] = Inr (map (\<lambda>r. [dot r qn]) (docs_compressed eng)) \<and>
     for_each (query_body argsort eng (map (\<lambda>r. [dot r qn]) (docs_compressed eng)) [qn])
       (top_indices argsort (map (\<lambda>r. [dot r qn]) (docs_compressed eng)) k) ([], None) = Inr st \<and>
     rs = fst st"
proof -
  from assms obtain m sims st where p: "project_query eng t = Inr m"
    and s: "matmul_T (docs_compressed eng) m = Inr sims"
    and f: "for_each (query_body argsort eng sims m) (top_indices argsort sims k) ([], None) = Inr st"
    and rs: "rs = fst st"
    by (auto simp: query_def ebind_Inr_iff)
  from project_query_row [OF p] obtain qn where m: "m = [qn]" by blast
  from s have "sims = map (\<lambda>r. [dot r qn]) (docs_compressed eng)"
    unfolding m by (rule similarities_rows)
  with p s f rs m show ?thesis by blast
qed


section \<open>Evaluating the examples\<close>

lemmas eval_defs = query_def ranking_def project_query_def matmul_T_def matmul_diag_def dot_def
  normalize_rows_def row_norm_def handle_zeros_in_scale_def machine_eps_def
  top_indices_def py_take_def stable_argsort_def query_body_def py_nth_def top_dims_def np_mul_def
  shape_result_def snippet_def py_round2_def round_half_even_def

lemma demo_well_formed: "well_formed demo_engine ''chess''"
  by (simp add: well_formed_def demo_engine_def payload_ok_def upt_rec)

lemma demo_ranking: "ranking stable_argsort demo_engine ''chess'' 10 = Inr [0, 2, 1, 3]"
  by (simp add: eval_defs demo_engine_def upt_rec)

lemma demo_query: "query stable_argsort demo_engine ''chess'' 10 = Inr demo_results"
  by (simp add: eval_defs demo_engine_def demo_results_def upt_rec)

section \<open>The highest contributions and the zero query\<close>

lemma argsort_descending:
  assumes ok: "argsort_ok argsort"
  shows "sorted_wrt (\<lambda>a b. c ! b \<le> (c ! a :: real)) (argsort (map uminus c))"
proof -
  let ?xs = "map uminus c"
  from argsort_sorted [OF ok, of ?xs]
  have "sorted_wrt (\<lambda>a b. ?xs ! a \<le> ?xs ! b) (argsort ?xs)"
    by (simp only: sorted_map)
  moreover have "c ! b \<le> c ! a"
    if "a \<in> set (argsort ?xs)" "b \<in> set (argsort ?xs)" "?xs ! a \<le> ?xs ! b" for a b
  proof -
    from that(1,2) have "a < length c" "b < length c"
      unfolding argsort_set [OF ok] by simp_all
    with that(3) show ?thesis by simp
  qed
  ultimately show ?thesis
    by (rule sorted_wrt_mono_rel [rotated])
qed

lemma highest_take_argsort:
  assumes ok: "argsort_ok argsort"
  shows "highest n c (take n (argsort (map uminus c)))"
proof -
  let ?p = "argsort (map uminus c)"
  have len: "length ?p = length c" using argsort_length [OF ok, of "map uminus c"] by simp
  have set: "set ?p = {0..<length c}" using argsort_set [OF ok, of "map uminus c"] by simp
  have dist: "distinct ?p" by (rule argsort_distinct [OF ok])
  have srt: "sorted_wrt (\<lambda>a b. c ! b \<le> c ! a) ?p" by (rule argsort_descending [OF ok])
  have "sorted_wrt (\<lambda>a b. c ! b \<le> c ! a) (take n ?p @ drop n ?p)"
    using srt by simp
  then have cross: "c ! j \<le> c ! i" if "i \<in> set (take n ?p)" "j \<in> set (drop n ?p)" for i j
    using that unfolding sorted_wrt_append by blast
  have out: "j \<in> set (take n ?p) \<or> c ! j \<le> c ! i"
    if i: "i \<in> set (take n ?p)" and j: "j < length c" for i j
  proof -
    from j set have "j \<in> set (take n ?p @ drop n ?p)" by simp
    then have "j \<in> set (take n ?p) \<or> j \<in> set (drop n ?p)" by (simp only: set_append Un_iff)
    with cross [OF i] show ?thesis by blast
  qed
  have bound: "i < length c" if "i \<in> set (take n ?p)" for i
    using in_set_takeD [OF that] set by simp
  show ?thesis
    unfolding highest_def list_all_iff
    using len dist srt out bound by (auto simp: sorted_wrt_take)
qed

lemma highest_top3:
  assumes ok: "argsort_ok argsort"
  shows "highest 3 c (py_take 3 (argsort (map uminus c)))"
  using highest_take_argsort [OF ok, of 3 c] by (simp add: py_take_def)

lemma dot_zero_left: "list_all (\<lambda>x. x = 0) xs \<Longrightarrow> dot xs ys = 0"
proof (induction xs arbitrary: ys)
  case Nil
  then show ?case by (simp add: dot_def)
next
  case (Cons x xs)
  then show ?case by (cases ys) (simp_all add: dot_def)
qed

lemma dot_zero_right: "list_all (\<lambda>y. y = 0) ys \<Longrightarrow> dot xs ys = 0"
proof (induction ys arbitrary: xs)
  case Nil
  then show ?case by (simp add: dot_def)
next
  case (Cons y ys)
  then show ?case by (cases xs) (simp_all add: dot_def)
qed

lemma py_round2_zero: "py_round2 0 = 0"
  by (simp add: py_round2_def round_half_even_def)

lemma project_zero_query:
  assumes z: "list_all (\<lambda>x. x = 0) (vectorizer eng t)"
    and p: "project_query eng t = Inr [qn]"
  shows "list_all (\<lambda>x. x = 0) qn"
proof -
  let ?w = "map2 (*) (map (dot (vectorizer eng t)) (vt eng)) (s eng)"
  from p have qn: "qn = map (\<lambda>x. x / handle_zeros_in_scale (row_norm ?w)) ?w"
    by (auto simp: project_query_def matmul_T_def matmul_diag_def normalize_rows_def
        split: if_splits)
  have "list_all (\<lambda>x. x = 0) ?w"
    by (auto simp: list_all_iff dot_zero_left [OF z] dest!: set_zip_leftD)
  then show ?thesis
    unfolding qn by (simp add: list_all_iff)
qed

lemma demo_project: "project_query demo_engine ''chess'' = Inr [[2 / 3, - 2 / 3, 1 / 3, 0]]"
  by (simp add: eval_defs demo_engine_def)

lemma demo_well_formed_zero: "well_formed demo_engine ''zzz''"
  by (simp add: well_formed_def demo_engine_def payload_ok_def upt_rec)

section \<open>Loops that collect\<close>

lemma for_each_collect:
  assumes "\<And>x acc. x \<in> set xs \<Longrightarrow> body x acc = Inr (acc @ [g x])"
  shows "for_each body xs acc = Inr (acc @ map g xs)"
  using assms by (induction xs arbitrary: acc) simp_all

lemma highest_py_take:
  assumes "argsort_ok argsort" "0 \<le> n"
  shows "highest (nat n) c (py_take n (argsort (map uminus c)))"
  using highest_take_argsort [OF assms(1), of "nat n" c] assms(2) by (simp add: py_take_def)

lemma demo_analyze:
  "analyze_svd_components stable_argsort demo_engine 2 =
     Inr [(0, [''chess'', ''fps''], ''board games''), (1, [''fps'', ''irl''], ''shooters''),
          (2, [''chess'', ''irl''], ''talk''), (3, [''fps'', ''irl''], ''outdoors'')]"
  by (simp add: analyze_svd_components_def demo_engine_def py_nth_def py_take_def
      stable_argsort_def py_lookup_def upt_rec)

section \<open>The effects of a query, and the tables of a vocabulary\<close>

lemma query_method_result:
  "snd (query_method argsort p query_text top_k) = query argsort (search_engine p) query_text top_k"
  by (auto simp: query_method_def query_def Let_def time_time_def py_print_def ebind_def
      split: sum.splits prod.splits)

lemma query_method_engine:
  "search_engine (fst (query_method argsort p query_text top_k)) = search_engine p"
  by (auto simp: query_method_def Let_def time_time_def py_print_def
      split: sum.splits prod.splits)

lemma query_method_reads_clock:
  "clock_reads p < clock_reads (fst (query_method argsort p query_text top_k))"
  by (auto simp: query_method_def Let_def time_time_def py_print_def
      split: sum.splits prod.splits)

lemma demo_query_method:
  "query_method stable_argsort demo_process ''chess'' 10 =
    (demo_process\<lparr>clock_reads := 3, stdout := [Found_top 10 (1 / 1000), Total_search_time (2 / 1000)]\<rparr>, Inr demo_results)"
  by (simp add: query_method_def demo_process_def eval_defs demo_engine_def demo_results_def upt_rec
     time_time_def py_print_def)

lemmas web_defs = search_streamer_def query_method_def time_time_def py_print_def sbind_def
  group_body_def get_twitch_info_def has_twitch_url_def py_upper_def py_lower_def py_title_def
  upper_char_def lower_char_def is_upper_def is_lower_def lower_letters_def upper_letters_def Let_def py_strip_def is_space_def
  remove_spaces_def dict_set_def get_streamer_image_path_def get_csv_streamer_info_def

lemma demo_search:
  "search_streamer stable_argsort demo_process [''name'' \<mapsto> ''chess''] =
     (demo_process
        \<lparr>streamer_csv_data := (streamer_csv_data demo_process)
           (''BOB'' \<mapsto> [(''Name'', PStr ''Bob''), (''Twitch URL'', PStr []),
                        (''url'', PStr ''https://www.twitch.tv/Bob'')]),
         clock_reads := 3,
         stdout := [Found_top 50 (1 / 1000), Total_search_time (2 / 1000),
                    No_twitch_data ''Cy'', No_twitch_data ''Dee'']\<rparr>,
      Inr [\<lparr>entry_name = ''Ann'', entry_documents = [demo_results ! 0],
            entry_twitch_info =
              Some [(''Name'', PStr ''Ann''), (''Twitch URL'', PStr ''https://www.twitch.tv/ann'')],
            image_path = ''images/streamer_images/ANN.jpg'',
            csv_data =
              Some [(''Name'', PStr ''Ann''), (''Twitch URL'', PStr ''https://www.twitch.tv/ann'')]\<rparr>,
           \<lparr>entry_name = ''Cy'', entry_documents = [demo_results ! 1],
            entry_twitch_info = None,
            image_path = ''images/streamer_images/CY.jpg'', csv_data = None\<rparr>,
           \<lparr>entry_name = ''Bob'', entry_documents = [demo_results ! 2],
            entry_twitch_info =
              Some [(''Name'', PStr ''Bob''), (''Twitch URL'', PStr []),
                    (''url'', PStr ''https://www.twitch.tv/Bob'')],
            image_path = ''images/streamer_images/BOB.jpg'',
            csv_data =
              Some [(''Name'', PStr ''Bob''), (''Twitch URL'', PStr []),
                    (''url'', PStr ''https://www.twitch.tv/Bob'')]\<rparr>,
           \<lparr>entry_name = ''Dee'', entry_documents = [demo_results ! 3],
            entry_twitch_info = None,
            image_path = ''images/streamer_images/DEE.jpg'', csv_data = None\<rparr>])"
  by (simp add: web_defs demo_process_def eval_defs demo_engine_def demo_results_def upt_rec)

lemma term_to_index:
  assumes "distinct terms" "i < length terms"
  shows "map_of (zip terms [0..<length terms]) (terms ! i) = Some i"
  using map_of_zip_nth [of terms "[0..<length terms]" i] assms by simp

lemma index_to_term:
  assumes "i < length terms"
  shows "map_of (zip [0..<length terms] terms) i = Some (terms ! i)"
  using map_of_zip_nth [of "[0..<length terms]" terms i] assms by simp

section \<open>Equal similarities\<close>

text \<open>The contract of \<open>argsort\<close> does not fix the order of equal values, and the ranking
  of documents with equal similarity follows the function the engine runs with.\<close>

lemma last_first_argsort_ok: "argsort_ok last_first_argsort"
proof -
  have "sorted (map (\<lambda>i. xs ! i) (last_first_argsort xs))" for xs :: vec
  proof -
    let ?l = "sort_key (\<lambda>i. - xs ! i) [0..<length xs]"
    have "sorted (map (\<lambda>i. - xs ! i) ?l)" by (rule sorted_sort_key)
    then have "sorted_wrt (\<lambda>a b. xs ! b \<le> xs ! a) ?l"
      by (simp add: sorted_map)
    then have "sorted_wrt (\<lambda>a b. xs ! a \<le> xs ! b) (rev ?l)"
      by (simp add: sorted_wrt_rev)
    then show ?thesis
      by (simp add: last_first_argsort_def sorted_map)
  qed
  then show ?thesis
    by (auto simp: argsort_ok_def is_argsort_def last_first_argsort_def)
qed

lemma tie_order_depends_on_argsort:
  "ranking stable_argsort demo_engine ''zzz'' 10 = Inr [0, 1, 2, 3] \<and>
   ranking last_first_argsort demo_engine ''zzz'' 10 = Inr [3, 2, 1, 0]"
  by (simp add: eval_defs last_first_argsort_def demo_engine_def upt_rec)

section \<open>The order of the results\<close>

text \<open>
  C3, as the code has it. Whenever a query returns, the reported similarities are in
  non-increasing order, and the loop visits the documents in the order of non-increasing
  raw similarity. The order of documents with equal similarity is left to \<open>argsort\<close>.
\<close>

theorem results_sorted_by_similarity:
  assumes ok: "argsort_ok argsort"
    and q: "query argsort eng query_text top_k = Inr rs"
  shows "sorted_wrt (\<lambda>a b. sim_score b \<le> sim_score a) rs \<and>
     (\<exists>qn ordinals. project_query eng query_text = Inr [qn] \<and>
        ranking argsort eng query_text top_k = Inr ordinals \<and>
        sorted_wrt (\<lambda>a b. dot (docs_compressed eng ! b) qn \<le> dot (docs_compressed eng ! a) qn)
          ordinals)"
proof -
  from query_run [OF q] obtain qn st where p: "project_query eng query_text = Inr [qn]"
    and m: "matmul_T (docs_compressed eng) [qn] =
       Inr (map (\<lambda>r. [dot r qn]) (docs_compressed eng))"
    and f: "for_each (query_body argsort eng (map (\<lambda>r. [dot r qn]) (docs_compressed eng)) [qn])
       (top_indices argsort (map (\<lambda>r. [dot r qn]) (docs_compressed eng)) top_k) ([], None) =
       Inr st"
    and rs: "rs = fst st"
    by blast
  let ?docs = "docs_compressed eng"
  let ?sims = "map (\<lambda>r. [dot r qn]) ?docs"
  let ?ords = "top_indices argsort ?sims top_k"
  let ?key = "\<lambda>d. py_round2 (dot (?docs ! d) qn * 100)"
  have raw: "sorted_wrt (\<lambda>a b. dot (?docs ! b) qn \<le> dot (?docs ! a) qn) ?ords"
    by (rule ranked_by_similarity [OF ok])
  then have keys: "sorted_wrt (\<lambda>a b. ?key b \<le> ?key a) ?ords"
    by (rule sorted_wrt_mono_rel [rotated]) (simp add: py_round2_mono)
  have body: "\<exists>r. st2 = (fst st1 @ [r], Some r) \<and> (sim_score r = ?key d \<or> snd st1 = Some r)"
    if "query_body argsort eng ?sims [qn] d st1 = Inr st2" for d st1 st2
  proof -
    from query_body_cases [OF that] obtain r where st2: "st2 = (fst st1 @ [r], Some r)"
      and c: "query_body argsort eng ?sims [qn] d ([], None) = Inr ([r], Some r) \<or> snd st1 = Some r"
      by blast
    from c have "sim_score r = ?key d \<or> snd st1 = Some r"
    proof
      assume "query_body argsort eng ?sims [qn] d ([], None) = Inr ([r], Some r)"
      from query_body_fresh_fields [OF this]
      have "d < length ?sims" "sim_score r = py_round2 (?sims ! d ! 0 * 100)" by auto
      then show ?thesis by simp
    qed simp
    with st2 show ?thesis by blast
  qed
  have "sorted_wrt (\<lambda>a b. sim_score b \<le> sim_score a) (fst st)"
    by (rule for_each_sorted [where body = "query_body argsort eng ?sims [qn]" and key = ?key,
          OF body f keys]) simp_all
  moreover have "ranking argsort eng query_text top_k = Inr ?ords"
    by (simp add: ranking_def p m)
  ultimately show ?thesis
    using rs p raw by blast
qed

theorem results_sorted_by_similarity_witness:
  "argsort_ok stable_argsort \<and>
   query stable_argsort demo_engine ''chess'' 10 = Inr demo_results \<and>
   sorted_wrt (\<lambda>a b. sim_score b \<le> sim_score a) demo_results \<and>
   (\<exists>qn ordinals. project_query demo_engine ''chess'' = Inr [qn] \<and>
      ranking stable_argsort demo_engine ''chess'' 10 = Inr ordinals \<and>
      sorted_wrt (\<lambda>a b. dot (docs_compressed demo_engine ! b) qn
                       \<le> dot (docs_compressed demo_engine ! a) qn) ordinals)"
  using results_sorted_by_similarity [OF stable_argsort_ok demo_query]
    stable_argsort_ok demo_query
  by blast

text \<open>
  C3 as stated fails where rounding makes two scores equal. On the second example
  document 1 (similarity 5100/5101) is ranked before document 0 (similarity 9999/10001),
  and both are reported with the score 99.98: two records with equal similarity, in
  descending order of their ordinals.
\<close>

theorem equal_scores_descending_ordinals:
  "ranking stable_argsort close_engine ''chess'' 10 = Inr [1, 0] \<and>
   query stable_argsort close_engine ''chess'' 10 =
     Inr [\<lparr>source = ''twitter'', name = ''Bob'', doc = PStr ''chess with friends'',
           sim_score = 9998 / 100, reddit_score = None, reddit_id = None,
           top_dimensions =
             [\<lparr>dim_index = 0, dim_label = ''board games'', contribution = 5100\<rparr>,
              \<lparr>dim_index = 1, dim_label = ''shooters'', contribution = 0\<rparr>]\<rparr>,
          \<lparr>source = ''twitter'', name = ''Ann'', doc = PStr ''chess stream tonight'',
           sim_score = 9998 / 100, reddit_score = None, reddit_id = None,
           top_dimensions =
             [\<lparr>dim_index = 0, dim_label = ''board games'', contribution = 9999\<rparr>,
              \<lparr>dim_index = 1, dim_label = ''shooters'', contribution = 0\<rparr>]\<rparr>]"
  by (simp add: eval_defs close_engine_def upt_rec)

section \<open>The number of results\<close>

text \<open>
  C4. Over well-formed artifacts, and for a count \<open>top_k\<close> that is not negative, the
  query raises nothing and returns \<open>min top_k n_docs\<close> records, the records of as many
  different document ordinals, in the order of the ranking.
\<close>

theorem query_returns_min_top_k:
  assumes "argsort_ok argsort" and "well_formed eng query_text" and "0 \<le> top_k"
  shows "\<exists>ordinals rs. ranking argsort eng query_text top_k = Inr ordinals \<and>
     query argsort eng query_text top_k = Inr rs \<and>
     length rs = min (nat top_k) (n_docs eng) \<and>
     distinct ordinals \<and> set ordinals \<subseteq> {0..<n_docs eng} \<and>
     list_all2 (record_of argsort eng query_text) ordinals rs"
proof -
  from wf_run [OF assms(1,2), of top_k] obtain qn rs where
    r: "ranking argsort eng query_text top_k =
       Inr (top_indices argsort (map (\<lambda>r. [dot r qn]) (docs_compressed eng)) top_k)"
    and q: "query argsort eng query_text top_k = Inr rs"
    and a: "list_all2 (record_of argsort eng query_text)
       (top_indices argsort (map (\<lambda>r. [dot r qn]) (docs_compressed eng)) top_k) rs"
    by blast
  let ?ords = "top_indices argsort (map (\<lambda>r. [dot r qn]) (docs_compressed eng)) top_k"
  have "length rs = length ?ords"
    using a by (simp add: list_all2_lengthD)
  then have "length rs = min (nat top_k) (n_docs eng)"
    using top_indices_length [OF assms(1,3)] by (simp add: n_docs_def)
  moreover have "distinct ?ords"
    by (rule top_indices_distinct [OF assms(1)])
  moreover have "set ?ords \<subseteq> {0..<n_docs eng}"
    using top_indices_bound [OF assms(1)] by (auto simp: n_docs_def)
  ultimately show ?thesis
    using r q a by blast
qed

theorem query_returns_min_top_k_witness:
  "argsort_ok stable_argsort \<and> well_formed demo_engine ''chess'' \<and> (0 :: int) \<le> 10 \<and>
   (\<exists>ordinals rs. ranking stable_argsort demo_engine ''chess'' 10 = Inr ordinals \<and>
      query stable_argsort demo_engine ''chess'' 10 = Inr rs \<and>
      length rs = min (nat 10) (n_docs demo_engine) \<and>
      distinct ordinals \<and> set ordinals \<subseteq> {0..<n_docs demo_engine} \<and>
      list_all2 (record_of stable_argsort demo_engine ''chess'') ordinals rs)"
  using query_returns_min_top_k [OF stable_argsort_ok demo_well_formed, of 10]
    stable_argsort_ok demo_well_formed
  by simp

section \<open>The explanation of a result\<close>

text \<open>
  C5. Over well-formed artifacts every record, in the order of the ranking, belongs to
  the document at its place; its \<open>top_dimensions\<close> name the \<open>min 3 k\<close> dimensions with the
  highest signed entries of the elementwise product of the document's row of \<open>u\<close> with
  the normalized query row, best first, and each entry carries the dimension's index,
  its label and its contribution.
\<close>

theorem top_dimensions_are_highest_contributions:
  assumes ok: "argsort_ok argsort" and wf: "well_formed eng query_text"
    and p: "project_query eng query_text = Inr [qn]"
    and r: "ranking argsort eng query_text top_k = Inr ordinals"
    and q: "query argsort eng query_text top_k = Inr rs"
  shows "list_all2 (\<lambda>d r.
       highest 3 (map2 (*) (u eng ! d) qn) (map dim_index (top_dimensions r)) \<and>
       list_all (\<lambda>e. dim_label e = dimension_labels eng ! dim_index e \<and>
                     contribution e = map2 (*) (u eng ! d) qn ! dim_index e)
         (top_dimensions r))
     ordinals rs"
proof -
  from wf_run [OF ok wf, of top_k] p r q
  have qn: "length qn = length (s eng)"
    and ords: "ordinals = top_indices argsort (map (\<lambda>r. [dot r qn]) (docs_compressed eng)) top_k"
    and all: "list_all2 (record_of argsort eng query_text) ordinals rs"
    by auto
  note m = wf_similarities [OF wf qn]
  show ?thesis
    using all
  proof (rule list.rel_mono_strong)
    fix d r
    assume d: "d \<in> set ordinals" and rec: "record_of argsort eng query_text d r"
    let ?c = "map2 (*) (u eng ! d) qn"
    from d have dn: "d < length (docs_compressed eng)"
      unfolding ords by (rule top_indices_bound [OF ok])
    with wf qn have du: "d < length (u eng)" and len: "length (u eng ! d) = length qn"
      and lab: "length (dimension_labels eng) = length qn"
      by (simp_all add: well_formed_def list_all_iff)
    from rec have "query_body argsort eng (map (\<lambda>r. [dot r qn]) (docs_compressed eng)) [qn] d
        ([], None) = Inr ([r], Some r)"
      by (simp add: record_of_def p m)
    from query_body_fresh_fields [OF this]
    have "top_dims argsort eng [qn] d = Inr (top_dimensions r)" by blast
    with top_dims_ok [OF ok du len lab]
    have td: "top_dimensions r =
        map (\<lambda>i. \<lparr>dim_index = i, dim_label = dimension_labels eng ! i, contribution = ?c ! i\<rparr>)
          (py_take 3 (argsort (map uminus ?c)))"
      by simp
    have "map dim_index (top_dimensions r) = py_take 3 (argsort (map uminus ?c))"
      unfolding td by (simp add: comp_def)
    with highest_top3 [OF ok, of ?c]
    have "highest 3 ?c (map dim_index (top_dimensions r))" by simp
    moreover have "list_all (\<lambda>e. dim_label e = dimension_labels eng ! dim_index e \<and>
        contribution e = ?c ! dim_index e) (top_dimensions r)"
      unfolding td by (simp add: list_all_iff)
    ultimately show "highest 3 ?c (map dim_index (top_dimensions r)) \<and>
       list_all (\<lambda>e. dim_label e = dimension_labels eng ! dim_index e \<and>
                     contribution e = ?c ! dim_index e) (top_dimensions r)"
      by blast
  qed
qed

theorem top_dimensions_are_highest_contributions_witness:
  "argsort_ok stable_argsort \<and> well_formed demo_engine ''chess'' \<and>
   project_query demo_engine ''chess'' = Inr [[2 / 3, - 2 / 3, 1 / 3, 0]] \<and>
   ranking stable_argsort demo_engine ''chess'' 10 = Inr [0, 2, 1, 3] \<and>
   query stable_argsort demo_engine ''chess'' 10 = Inr demo_results \<and>
   list_all2 (\<lambda>d r.
       highest 3 (map2 (*) (u demo_engine ! d) [2 / 3, - 2 / 3, 1 / 3, 0])
         (map dim_index (top_dimensions r)) \<and>
       list_all (\<lambda>e. dim_label e = dimension_labels demo_engine ! dim_index e \<and>
                     contribution e =
                       map2 (*) (u demo_engine ! d) [2 / 3, - 2 / 3, 1 / 3, 0] ! dim_index e)
         (top_dimensions r))
     [0, 2, 1, 3] demo_results"
  using top_dimensions_are_highest_contributions
    [OF stable_argsort_ok demo_well_formed demo_project demo_ranking demo_query]
    stable_argsort_ok demo_well_formed demo_project demo_ranking demo_query
  by blast

section \<open>A query without vocabulary overlap\<close>

text \<open>
  C1, as the code has it. The query has no check of the norm. When the TF-IDF row is
  zero, \<open>normalize_rows\<close> divides the zero row by 1: the normalized row is the zero row,
  every similarity is 0, and over well-formed artifacts the query returns its usual
  \<open>min top_k n_docs\<close> records, each with the score 0. No exception is raised.
\<close>

theorem zero_overlap_query_returns_zero_scores:
  assumes ok: "argsort_ok argsort" and wf: "well_formed eng query_text"
    and k: "0 \<le> top_k"
    and z: "list_all (\<lambda>x. x = 0) (vectorizer eng query_text)"
  shows "\<exists>qn rs. project_query eng query_text = Inr [qn] \<and> list_all (\<lambda>x. x = 0) qn \<and>
     query argsort eng query_text top_k = Inr rs \<and>
     length rs = min (nat top_k) (n_docs eng) \<and>
     list_all (\<lambda>r. sim_score r = 0) rs"
proof -
  from wf_run [OF ok wf, of top_k] obtain qn rs where
    p: "project_query eng query_text = Inr [qn]" and qn: "length qn = length (s eng)"
    and q: "query argsort eng query_text top_k = Inr rs"
    and all: "list_all2 (record_of argsort eng query_text)
       (top_indices argsort (map (\<lambda>r. [dot r qn]) (docs_compressed eng)) top_k) rs"
    by blast
  let ?sims = "map (\<lambda>r. [dot r qn]) (docs_compressed eng)"
  note zero = project_zero_query [OF z p]
  note m = wf_similarities [OF wf qn]
  from all have "length rs = length (top_indices argsort ?sims top_k)"
    by (simp add: list_all2_lengthD)
  then have len: "length rs = min (nat top_k) (n_docs eng)"
    using top_indices_length [OF ok k] by (simp add: n_docs_def)
  have "sim_score r = 0" if "r \<in> set rs" for r
  proof -
    from that all obtain d where "record_of argsort eng query_text d r"
      by (auto simp: list_all2_conv_all_nth in_set_conv_nth)
    then have "query_body argsort eng ?sims [qn] d ([], None) = Inr ([r], Some r)"
      by (simp add: record_of_def p m)
    from query_body_fresh_fields [OF this]
    have "d < length ?sims" "sim_score r = py_round2 (?sims ! d ! 0 * 100)" by auto
    then show ?thesis
      by (simp add: dot_zero_right [OF zero] py_round2_zero)
  qed
  then have "list_all (\<lambda>r. sim_score r = 0) rs"
    by (simp add: list_all_iff)
  with p zero q len show ?thesis by blast
qed

theorem zero_overlap_query_returns_zero_scores_witness:
  "argsort_ok stable_argsort \<and> well_formed demo_engine ''zzz'' \<and> (0 :: int) \<le> 2 \<and>
   list_all (\<lambda>x. x = 0) (vectorizer demo_engine ''zzz'') \<and>
   (\<exists>qn rs. project_query demo_engine ''zzz'' = Inr [qn] \<and> list_all (\<lambda>x. x = 0) qn \<and>
      query stable_argsort demo_engine ''zzz'' 2 = Inr rs \<and>
      length rs = min (nat 2) (n_docs demo_engine) \<and>
      list_all (\<lambda>r. sim_score r = 0) rs)"
proof -
  have z: "list_all (\<lambda>x. x = 0) (vectorizer demo_engine ''zzz'')"
    by (simp add: demo_engine_def)
  have k: "(0 :: int) \<le> 2" by simp
  from zero_overlap_query_returns_zero_scores [OF stable_argsort_ok demo_well_formed_zero k z]
    stable_argsort_ok demo_well_formed_zero z
  show ?thesis by simp
qed

text \<open>
  C1 as stated fails on the first example: the text \<^verbatim>\<open>zzz\<close> encodes to the zero row, the
  normalized query row is the zero row, and the query returns the records of documents
  0 and 1 with the score 0 instead of failing.
\<close>

theorem zero_overlap_query_is_answered:
  "vectorizer demo_engine ''zzz'' = [0, 0, 0] \<and>
   project_query demo_engine ''zzz'' = Inr [[0, 0, 0, 0]] \<and>
   query stable_argsort demo_engine ''zzz'' 2 =
     Inr [\<lparr>source = ''twitter'', name = ''Ann'', doc = PStr ''chess stream tonight'',
           sim_score = 0, reddit_score = None, reddit_id = None,
           top_dimensions =
             [\<lparr>dim_index = 0, dim_label = ''board games'', contribution = 0\<rparr>,
              \<lparr>dim_index = 1, dim_label = ''shooters'', contribution = 0\<rparr>,
              \<lparr>dim_index = 2, dim_label = ''talk'', contribution = 0\<rparr>]\<rparr>,
          \<lparr>source = ''wiki'', name = ''Bob'', doc = PStr ''Bob plays shooters'',
           sim_score = 0, reddit_score = None, reddit_id = None,
           top_dimensions =
             [\<lparr>dim_index = 0, dim_label = ''board games'', contribution = 0\<rparr>,
              \<lparr>dim_index = 1, dim_label = ''shooters'', contribution = 0\<rparr>,
              \<lparr>dim_index = 2, dim_label = ''talk'', contribution = 0\<rparr>]\<rparr>]"
  by (simp add: eval_defs demo_engine_def upt_rec)

section \<open>A document with another source tag\<close>

text \<open>
  C2 does not hold of the code. A document whose tag is none of the four is not left
  out: \<^verbatim>\<open>results.append(result)\<close> runs for it too. Ranked first (document 0 retagged),
  the query raises \<^verbatim>\<open>UnboundLocalError\<close>; ranked later (document 2 retagged, second in
  the ranking), the record of the document before it is appended a second time.
\<close>

theorem unrecognised_tag_raises_or_repeats:
  "query stable_argsort (retagged_engine 0) ''chess'' 10 = Inl UnboundLocalError \<and>
   ranking stable_argsort (retagged_engine 2) ''chess'' 10 = Inr [0, 2, 1, 3] \<and>
   query stable_argsort (retagged_engine 2) ''chess'' 10 =
     Inr [demo_results ! 0, demo_results ! 0, demo_results ! 2, demo_results ! 3]"
  by (simp add: eval_defs retagged_engine_def demo_engine_def demo_results_def upt_rec)

section \<open>The components\<close>

text \<open>
  C7. When \<open>dimension_labels\<close> has one label for each of the \<open>k\<close> rows of \<open>vt\<close> and
  \<open>index_to_word\<close> knows every term index, \<open>analyze_svd_components\<close> returns \<open>k\<close>
  entries for every count \<open>n\<close> that is not negative. Entry \<open>i\<close> holds \<open>i\<close>, the words of
  the \<open>min n n_terms\<close> positions of row \<open>i\<close> with the highest loadings, in the order of
  non-increasing loading, and the label of dimension \<open>i\<close>.
\<close>

theorem analyze_svd_components_entries:
  assumes ok: "argsort_ok argsort"
    and k: "length (dimension_labels eng) = length (vt eng)"
    and vocab: "list_all (\<lambda>row. list_all (\<lambda>j. index_to_word eng j \<noteq> None) [0..<length row])
       (vt eng)"
    and n: "0 \<le> n"
  shows "\<exists>entries. analyze_svd_components argsort eng n = Inr entries \<and>
     length entries = length (vt eng) \<and>
     list_all (\<lambda>i. \<exists>tops.
         entries ! i =
           (i, map (\<lambda>j. the (index_to_word eng j)) tops, dimension_labels eng ! i) \<and>
         highest (nat n) (vt eng ! i) tops)
       [0..<length (vt eng)]"
proof -
  let ?tops = "\<lambda>i. py_take n (argsort (map uminus (vt eng ! i)))"
  let ?g = "\<lambda>i. (i, map (\<lambda>j. the (index_to_word eng j)) (?tops i), dimension_labels eng ! i)"
  let ?body = "\<lambda>i results.
         ebind (py_nth (vt eng) i) (\<lambda>dimension.
         ebind (mapM_err (py_lookup (index_to_word eng))
                  (py_take n (argsort (map uminus dimension)))) (\<lambda>top_terms.
         ebind (py_nth (dimension_labels eng) i) (\<lambda>lab.
           Inr (results @ [(i, top_terms, lab)]))))"
  have step: "?body i acc = Inr (acc @ [?g i])"
    if "i \<in> set [0..<length (dimension_labels eng)]" for i acc
  proof -
    from that k have i: "i < length (vt eng)" by simp
    have "py_lookup (index_to_word eng) j = Inr (the (index_to_word eng j))"
      if "j \<in> set (?tops i)" for j
    proof -
      from top_idx_bound [OF ok that] have "j < length (vt eng ! i)" by simp
      moreover from vocab i
      have "list_all (\<lambda>j. index_to_word eng j \<noteq> None) [0..<length (vt eng ! i)]"
        by (simp add: list_all_length)
      ultimately have "index_to_word eng j \<noteq> None"
        by (simp add: list_all_iff)
      then show ?thesis by (auto simp: py_lookup_def)
    qed
    then have "mapM_err (py_lookup (index_to_word eng)) (?tops i) =
        Inr (map (\<lambda>j. the (index_to_word eng j)) (?tops i))"
      by (rule mapM_err_total)
    with i k show ?thesis by (simp add: py_nth_def)
  qed
  have run: "analyze_svd_components argsort eng n =
      Inr (map ?g [0..<length (dimension_labels eng)])"
    unfolding analyze_svd_components_def
    using for_each_collect [of "[0..<length (dimension_labels eng)]" ?body ?g "[]", OF step]
    by simp
  have "highest (nat n) (vt eng ! i) (?tops i)" for i
    by (rule highest_py_take [OF ok n])
  then show ?thesis
    unfolding run using k by (auto simp: list_all_iff)
qed

theorem analyze_svd_components_entries_witness:
  "argsort_ok stable_argsort \<and>
   length (dimension_labels demo_engine) = length (vt demo_engine) \<and>
   list_all (\<lambda>row. list_all (\<lambda>j. index_to_word demo_engine j \<noteq> None) [0..<length row])
     (vt demo_engine) \<and>
   (0 :: int) \<le> 2 \<and>
   analyze_svd_components stable_argsort demo_engine 2 =
     Inr [(0, [''chess'', ''fps''], ''board games''), (1, [''fps'', ''irl''], ''shooters''),
          (2, [''chess'', ''irl''], ''talk''), (3, [''fps'', ''irl''], ''outdoors'')] \<and>
   (\<exists>entries. analyze_svd_components stable_argsort demo_engine 2 = Inr entries \<and>
      length entries = length (vt demo_engine) \<and>
      list_all (\<lambda>i. \<exists>tops.
          entries ! i =
            (i, map (\<lambda>j. the (index_to_word demo_engine j)) tops,
             dimension_labels demo_engine ! i) \<and>
          highest (nat 2) (vt demo_engine ! i) tops)
        [0..<length (vt demo_engine)])"
proof -
  have k: "length (dimension_labels demo_engine) = length (vt demo_engine)"
    by (simp add: demo_engine_def)
  have vocab: "list_all (\<lambda>row. list_all (\<lambda>j. index_to_word demo_engine j \<noteq> None)
      [0..<length row]) (vt demo_engine)"
    by (simp add: demo_engine_def upt_rec)
  have n: "(0 :: int) \<le> 2" by simp
  from analyze_svd_components_entries [OF stable_argsort_ok k vocab n]
    stable_argsort_ok k vocab demo_analyze
  show ?thesis by simp
qed

section \<open>Repeated queries\<close>

text \<open>
  C8. The result of the method \<^verbatim>\<open>query\<close> depends on the engine, the query text and
  \<open>top_k\<close> only, not on the clock, on what has been printed, or on the streamer table;
  and the call leaves the engine as it was. So a second call with the same text and
  \<open>top_k\<close> returns the same list of records, or raises the same exception.
\<close>

theorem query_is_deterministic:
  assumes "search_engine p = search_engine p'"
  shows "snd (query_method argsort p query_text top_k) =
       snd (query_method argsort p' query_text top_k) \<and>
     search_engine (fst (query_method argsort p query_text top_k)) = search_engine p \<and>
     snd (query_method argsort (fst (query_method argsort p query_text top_k)) query_text top_k) =
       snd (query_method argsort p query_text top_k)"
  using assms by (simp add: query_method_result query_method_engine)

theorem query_is_deterministic_witness:
  "search_engine demo_process = search_engine later_process \<and>
   snd (query_method stable_argsort demo_process ''chess'' 10) = Inr demo_results \<and>
   snd (query_method stable_argsort demo_process ''chess'' 10) =
     snd (query_method stable_argsort later_process ''chess'' 10) \<and>
   search_engine (fst (query_method stable_argsort demo_process ''chess'' 10)) =
     search_engine demo_process \<and>
   snd (query_method stable_argsort
          (fst (query_method stable_argsort demo_process ''chess'' 10)) ''chess'' 10) =
     snd (query_method stable_argsort demo_process ''chess'' 10)"
proof -
  have e: "search_engine demo_process = search_engine later_process"
    by (simp add: later_process_def)
  from query_is_deterministic [OF e, of stable_argsort "''chess''" 10] e demo_query_method
  show ?thesis by simp
qed

section \<open>The search endpoint\<close>

text \<open>
  C10. When the request has no parameter \<^verbatim>\<open>name\<close>, or an empty one, the endpoint
  answers with the empty list and leaves the process as it was: the clock is not read
  and nothing is printed. The method \<^verbatim>\<open>query\<close> was therefore not called, whatever the
  engine, since every call of it reads the clock and so changes the process.
\<close>

theorem empty_name_returns_empty_list:
  assumes "args ''name'' = None \<or> args ''name'' = Some []"
  shows "search_streamer argsort p args = (p, Inr []) \<and>
     fst (query_method argsort p query_text top_k) \<noteq> p"
proof -
  from assms have "search_streamer argsort p args = (p, Inr [])"
    by (auto simp: search_streamer_def)
  moreover have "fst (query_method argsort p query_text top_k) \<noteq> p"
    using query_method_reads_clock [of p argsort query_text top_k] by auto
  ultimately show ?thesis by simp
qed

theorem empty_name_returns_empty_list_witness:
  "(Map.empty :: string \<rightharpoonup> string) ''name'' = None \<and>
   search_streamer stable_argsort demo_process Map.empty = (demo_process, Inr []) \<and>
   ([''name'' \<mapsto> []] :: string \<rightharpoonup> string) ''name'' = Some [] \<and>
   search_streamer stable_argsort demo_process [''name'' \<mapsto> []] = (demo_process, Inr []) \<and>
   fst (query_method stable_argsort demo_process ''chess'' 50) \<noteq> demo_process"
proof -
  have a: "(Map.empty :: string \<rightharpoonup> string) ''name'' = None \<or>
      (Map.empty :: string \<rightharpoonup> string) ''name'' = Some []"
    by simp
  have b: "([''name'' \<mapsto> []] :: string \<rightharpoonup> string) ''name'' = None \<or>
      ([''name'' \<mapsto> []] :: string \<rightharpoonup> string) ''name'' = Some []"
    by simp
  from empty_name_returns_empty_list
      [of Map.empty stable_argsort demo_process "''chess''" 50, OF a]
    empty_name_returns_empty_list
      [of "[''name'' \<mapsto> []]" stable_argsort demo_process "''chess''" 50, OF b]
  show ?thesis by simp
qed

section \<open>The vocabulary\<close>

text \<open>
  C9. When the files hold the two tables of a vocabulary without repeated terms, the
  loaded engine maps every term of the vocabulary to an index that \<open>index_to_word\<close> maps
  back to the term, and every index below \<open>n_terms\<close> to a term that \<open>word_to_index\<close> maps
  back to the index.
\<close>

theorem vocabulary_round_trip:
  assumes d: "distinct terms"
    and saved: "(vocabulary (vectorizer_pkl files), index_to_word_pkl files) =
       vocabulary_tables terms"
  shows "(\<forall>t\<in>set terms. \<exists>i<length terms.
        word_to_index (load_model files) t = Some i \<and>
        index_to_word (load_model files) i = Some t) \<and>
     (\<forall>i<length terms. \<exists>t\<in>set terms.
        index_to_word (load_model files) i = Some t \<and>
        word_to_index (load_model files) t = Some i)"
proof -
  from saved have w: "word_to_index (load_model files) = map_of (zip terms [0..<length terms])"
    and i: "index_to_word (load_model files) = map_of (zip [0..<length terms] terms)"
    by (simp_all add: load_model_def vocabulary_tables_def)
  have "\<exists>i<length terms. word_to_index (load_model files) t = Some i \<and>
      index_to_word (load_model files) i = Some t" if "t \<in> set terms" for t
  proof -
    from that obtain j where j: "j < length terms" "terms ! j = t"
      by (auto simp: in_set_conv_nth)
    with term_to_index [OF d j(1)] index_to_term [OF j(1)] show ?thesis
      unfolding w i by auto
  qed
  moreover have "\<exists>t\<in>set terms. index_to_word (load_model files) i = Some t \<and>
      word_to_index (load_model files) t = Some i" if "i < length terms" for i
    using term_to_index [OF d that] index_to_term [OF that] that
    unfolding w i by auto
  ultimately show ?thesis by blast
qed

theorem vocabulary_round_trip_witness:
  "distinct [''chess'', ''fps'', ''irl''] \<and>
   (vocabulary (vectorizer_pkl demo_files), index_to_word_pkl demo_files) =
     vocabulary_tables [''chess'', ''fps'', ''irl''] \<and>
   ''fps'' \<in> set [''chess'', ''fps'', ''irl''] \<and>
   (\<exists>i<length [''chess'', ''fps'', ''irl''].
      word_to_index (load_model demo_files) ''fps'' = Some i \<and>
      index_to_word (load_model demo_files) i = Some ''fps'') \<and>
   (2 :: nat) < length [''chess'', ''fps'', ''irl''] \<and>
   (\<exists>t\<in>set [''chess'', ''fps'', ''irl''].
      index_to_word (load_model demo_files) 2 = Some t \<and>
      word_to_index (load_model demo_files) t = Some 2)"
proof -
  have d: "distinct [''chess'', ''fps'', ''irl'']" by simp
  have saved: "(vocabulary (vectorizer_pkl demo_files), index_to_word_pkl demo_files) =
     vocabulary_tables [''chess'', ''fps'', ''irl'']"
    by (simp add: demo_files_def)
  have m: "''fps'' \<in> set [''chess'', ''fps'', ''irl'']"
    and n: "(2 :: nat) < length [''chess'', ''fps'', ''irl'']"
    by simp_all
  from vocabulary_round_trip [OF d saved] d saved m n show ?thesis
    by blast
qed

end
